theory Spec2Isabelle
  imports Main "HOL-Library.Multiset" "HOL-Library.AList"
begin

section \<open>Shared vocabulary\<close>

text \<open>
  Exceptions the modelled code can meet. \<open>APIResponseError\<close> is raised by the
  SmartThings client library, the \<open>Client...\<close> errors and \<open>TimeoutError\<close> by the
  HTTP transport, the others by Python itself.
\<close>

datatype exn =
    APIResponseError
  | ClientResponseError
  | ClientConnectionError
  | TimeoutError
  | JSONDecodeError
  | KeyError
  | AttributeError
  | TypeError

type_synonym capability = string

section \<open>Constants of \<open>const.py\<close>\<close>

definition IGNORED_CAPABILITIES :: "capability list" where
  "IGNORED_CAPABILITIES = [''execute'', ''healthCheck'', ''ocf'']"

definition SUBSCRIPTION_WARNING_LIMIT :: nat where
  "SUBSCRIPTION_WARNING_LIMIT = 40"

section \<open>Subscription synchronisation (\<open>smartapp.py\<close>, \<open>smartapp_sync_subscriptions\<close>)\<close>

subsection \<open>Data\<close>

text \<open>A device descriptor; the pass reads only its capability list.\<close>

record device =
  device_id :: string
  capabilities :: "capability list"

datatype source_type = CAPABILITY | DEVICE

record subscription =
  subscription_id :: nat
  sub_installed_app_id :: string
  sub_location_id :: string
  source_type :: source_type
  capability :: capability

text \<open>
  Modelled from the spec: the remote API, an external collaborator that is the sole
  arbiter of which subscriptions exist. Its state is the list of live subscriptions and
  the next identifier it will issue. A successful create stores the submitted record
  under a fresh identifier, a successful delete removes the record with the given
  identifier, and a call that raises leaves the state as it was.
\<close>

record remote =
  next_id :: nat
  subs :: "subscription list"

text \<open>
  Which calls the remote API answers with an exception: the listing, a create for a
  given capability, a delete for a given subscription identifier.
\<close>

record api_env =
  subscriptions_error :: "exn option"
  create_error :: "capability \<Rightarrow> exn option"
  delete_error :: "nat \<Rightarrow> exn option"

definition api_subscriptions :: "api_env \<Rightarrow> remote \<Rightarrow> exn + subscription list" where
  "api_subscriptions env r =
     (case subscriptions_error env of Some e \<Rightarrow> Inl e | None \<Rightarrow> Inr (subs r))"

definition api_create_subscription :: "api_env \<Rightarrow> subscription \<Rightarrow> remote \<Rightarrow> exn + remote" where
  "api_create_subscription env sub r =
     (case create_error env (capability sub) of
        Some e \<Rightarrow> Inl e
      | None \<Rightarrow> Inr (r\<lparr>next_id := Suc (next_id r),
                       subs := subs r @ [sub\<lparr>subscription_id := next_id r\<rparr>]\<rparr>))"

definition api_delete_subscription :: "api_env \<Rightarrow> nat \<Rightarrow> remote \<Rightarrow> exn + remote" where
  "api_delete_subscription env sid r =
     (case delete_error env sid of
        Some e \<Rightarrow> Inl e
      | None \<Rightarrow> Inr (r\<lparr>subs := filter (\<lambda>s. subscription_id s \<noteq> sid) (subs r)\<rparr>))"

text \<open>What the pass leaves behind: the API calls it issued and the lines it logged.\<close>

datatype api_call =
    Call_subscriptions string
  | Call_create_subscription capability
  | Call_delete_subscription string nat

datatype log_event =
    Too_many_subscriptions nat nat
  | Created capability
  | Create_failed capability exn
  | Removed capability
  | Remove_failed capability exn
  | Up_to_date

record sync_state =
  calls :: "api_call list"
  logged :: "log_event list"
  cloud :: remote

text \<open>The coroutines collected in \<open>tasks\<close>.\<close>

datatype task = Delete_task subscription | Create_task capability

subsection \<open>The two task bodies\<close>

text \<open>
  Each body is one API call inside \<open>try\<close> with an \<open>except Exception\<close> handler that
  logs the error. Every member of \<open>exn\<close> is a subclass of \<open>Exception\<close>, so the handler
  takes each of them. The result type still has room for an exception that escapes.
\<close>

definition create_subscription ::
  "api_env \<Rightarrow> string \<Rightarrow> string \<Rightarrow> capability \<Rightarrow> sync_state \<Rightarrow> exn + sync_state" where
  "create_subscription env installed_app location target st =
     (let sub = \<lparr>subscription_id = 0, sub_installed_app_id = installed_app,
                 sub_location_id = location, source_type = CAPABILITY,
                 capability = target\<rparr>;
          cs = calls st @ [Call_create_subscription target]
      in case api_create_subscription env sub (cloud st) of
           Inr r \<Rightarrow> Inr (st\<lparr>calls := cs, logged := logged st @ [Created target], cloud := r\<rparr>)
         | Inl error \<Rightarrow>
             Inr (st\<lparr>calls := cs, logged := logged st @ [Create_failed target error]\<rparr>))"

definition delete_subscription ::
  "api_env \<Rightarrow> string \<Rightarrow> subscription \<Rightarrow> sync_state \<Rightarrow> exn + sync_state" where
  "delete_subscription env installed_app sub st =
     (let cs = calls st @ [Call_delete_subscription installed_app (subscription_id sub)]
      in case api_delete_subscription env (subscription_id sub) (cloud st) of
           Inr r \<Rightarrow>
             Inr (st\<lparr>calls := cs, logged := logged st @ [Removed (capability sub)], cloud := r\<rparr>)
         | Inl error \<Rightarrow>
             Inr (st\<lparr>calls := cs, logged := logged st @ [Remove_failed (capability sub) error]\<rparr>))"

fun run_task :: "api_env \<Rightarrow> string \<Rightarrow> string \<Rightarrow> task \<Rightarrow> sync_state \<Rightarrow> exn + sync_state" where
  "run_task env installed_app location (Delete_task sub) st =
     delete_subscription env installed_app sub st"
| "run_task env installed_app location (Create_task target) st =
     create_subscription env installed_app location target st"

text \<open>
  \<open>asyncio.gather\<close> runs the tasks on the event loop; each task is one API call followed
  by one log line, so a run of the gathered tasks is the list of tasks in the order in
  which the event loop completes them. An exception that escapes a task is raised by
  \<open>gather\<close> to the awaiting pass.
\<close>

fun gather :: "api_env \<Rightarrow> string \<Rightarrow> string \<Rightarrow> task list \<Rightarrow> sync_state \<Rightarrow> exn + sync_state" where
  "gather env installed_app location [] st = Inr st"
| "gather env installed_app location (t # ts) st =
     (case run_task env installed_app location t st of
        Inl e \<Rightarrow> Inl e
      | Inr st' \<Rightarrow> gather env installed_app location ts st')"

subsection \<open>Desired capabilities and the difference with the remote list\<close>

text \<open>
  Lines 107 to 114. \<open>CAPABILITIES\<close> is the allowlist exported by the client library; it is
  not part of this repository and is a parameter here.
\<close>

definition desired_capabilities :: "capability list \<Rightarrow> device list \<Rightarrow> capability set" where
  "desired_capabilities CAPABILITIES devices =
     (fold (\<lambda>device caps. caps \<union> set (capabilities device)) devices {}
        \<inter> set CAPABILITIES) - set IGNORED_CAPABILITIES"

text \<open>
  Lines 132 to 136: a subscription whose capability is still wanted is kept and its
  capability is struck from the set; any other subscription gets a delete task.
\<close>

fun find_differences ::
  "subscription list \<Rightarrow> capability set \<Rightarrow> subscription list \<Rightarrow> capability set \<times> subscription list" where
  "find_differences [] caps tasks = (caps, tasks)"
| "find_differences (subscription # rest) caps tasks =
     (if capability subscription \<in> caps
      then find_differences rest (caps - {capability subscription}) tasks
      else find_differences rest caps (tasks @ [subscription]))"

text \<open>
  The gathered tasks are the delete tasks, in listing order, followed by one create task
  for each capability left in the set, in the set's iteration order, which Python does not
  fix; and \<open>asyncio.gather\<close> promises no order of completion. A schedule is any order in
  which these tasks can complete.
\<close>

fun deletes_of :: "task list \<Rightarrow> subscription list" where
  "deletes_of [] = []"
| "deletes_of (Delete_task s # ts) = s # deletes_of ts"
| "deletes_of (Create_task c # ts) = deletes_of ts"

fun creates_of :: "task list \<Rightarrow> capability list" where
  "creates_of [] = []"
| "creates_of (Delete_task s # ts) = creates_of ts"
| "creates_of (Create_task c # ts) = c # creates_of ts"

definition is_schedule :: "capability set \<times> subscription list \<Rightarrow> task list \<Rightarrow> bool" where
  "is_schedule plan ts \<longleftrightarrow>
     mset (deletes_of ts) = mset (snd plan) \<and>
     distinct (creates_of ts) \<and> set (creates_of ts) = fst plan"

subsection \<open>The pass\<close>

definition sync_plan ::
  "capability list \<Rightarrow> device list \<Rightarrow> subscription list \<Rightarrow> capability set \<times> subscription list" where
  "sync_plan CAPABILITIES devices subscriptions =
     find_differences subscriptions (desired_capabilities CAPABILITIES devices) []"

definition warning_log :: "capability set \<Rightarrow> log_event list" where
  "warning_log caps =
     (if card caps > SUBSCRIPTION_WARNING_LIMIT
      then [Too_many_subscriptions (card caps) SUBSCRIPTION_WARNING_LIMIT] else [])"

text \<open>
  The whole of \<open>smartapp_sync_subscriptions\<close>. \<open>order\<close> is the order in which the event
  loop completes the gathered tasks. The result is \<open>Inl\<close> when the coroutine raises.
\<close>

definition smartapp_sync_subscriptions ::
  "capability list \<Rightarrow> api_env \<Rightarrow> string \<Rightarrow> string \<Rightarrow> device list \<Rightarrow> task list \<Rightarrow> remote
     \<Rightarrow> exn + sync_state" where
  "smartapp_sync_subscriptions CAPABILITIES env location installed_app devices order r =
     (let caps = desired_capabilities CAPABILITIES devices;
          st = \<lparr>calls = [Call_subscriptions installed_app], logged = warning_log caps, cloud = r\<rparr>
      in case api_subscriptions env r of
           Inl e \<Rightarrow> Inl e
         | Inr subscriptions \<Rightarrow>
             (case find_differences subscriptions caps [] of
                (remaining, deletions) \<Rightarrow>
                  if deletions \<noteq> [] \<or> remaining \<noteq> {}
                  then gather env installed_app location order st
                  else Inr (st\<lparr>logged := logged st @ [Up_to_date]\<rparr>)))"

subsection \<open>Vocabulary of the statements\<close>

text \<open>The API call a task issues, and the line it logs under a given environment.\<close>

fun call_of :: "string \<Rightarrow> task \<Rightarrow> api_call" where
  "call_of installed_app (Delete_task s) =
     Call_delete_subscription installed_app (subscription_id s)"
| "call_of installed_app (Create_task c) = Call_create_subscription c"

fun outcome :: "api_env \<Rightarrow> task \<Rightarrow> log_event" where
  "outcome env (Delete_task s) =
     (case delete_error env (subscription_id s) of
        None \<Rightarrow> Removed (capability s)
      | Some e \<Rightarrow> Remove_failed (capability s) e)"
| "outcome env (Create_task c) =
     (case create_error env c of None \<Rightarrow> Created c | Some e \<Rightarrow> Create_failed c e)"

fun succeeds :: "api_env \<Rightarrow> task \<Rightarrow> bool" where
  "succeeds env (Delete_task s) = (delete_error env (subscription_id s) = None)"
| "succeeds env (Create_task c) = (create_error env c = None)"

definition never_fails :: "'a \<Rightarrow> exn option" where
  "never_fails x = None"

definition reliable :: api_env where
  "reliable = \<lparr>subscriptions_error = None, create_error = never_fails,
                delete_error = never_fails\<rparr>"

text \<open>
  A well-formed remote state: identifiers are unique and all of them were issued before
  the next one.
\<close>

definition remote_ok :: "remote \<Rightarrow> bool" where
  "remote_ok r \<longleftrightarrow>
     distinct (map subscription_id (subs r)) \<and>
     list_all (\<lambda>s. subscription_id s < next_id r) (subs r)"

text \<open>The subscriptions of a listing that the pass plans no delete for.\<close>

definition kept_subscriptions :: "subscription list \<Rightarrow> capability set \<Rightarrow> subscription list" where
  "kept_subscriptions xs caps =
     filter (\<lambda>s. subscription_id s \<notin> subscription_id ` set (snd (find_differences xs caps []))) xs"

section \<open>Webhook (\<open>smartapp.py\<close>, \<open>smartapp_webhook\<close>)\<close>

text \<open>A decoded JSON document.\<close>

datatype json =
    JNull
  | JBool bool
  | JNumber int
  | JString string
  | JArray "json list"
  | JObject "(string \<times> json) list"

text \<open>
  The lifecycle manager stored under \<open>hass.data[DOMAIN][DATA_MANAGER]\<close>. It belongs to
  the SmartApp library; all the webhook needs of it is what \<open>handle_request\<close> answers
  for a decoded body and the request headers, or the exception it raises.
\<close>

record manager =
  handle_request :: "json \<Rightarrow> (string \<times> string) list \<Rightarrow> exn + json"

record hass =
  data_manager :: "manager option"

text \<open>
  The inbound request as the handler sees it: \<open>request_json\<close> is what awaiting
  \<open>request.json()\<close> gives, the decoded body or the decoder's exception, and \<open>headers\<close>
  are the request headers.
\<close>

record request =
  request_json :: "exn + json"
  headers :: "(string \<times> string) list"

text \<open>
  \<open>Json_response\<close> is \<open>web.json_response(result)\<close>, a response of status 200 whose body
  is the serialised result; \<open>Response\<close> is \<open>web.Response(status=...)\<close>.
\<close>

datatype response = Json_response json | Response nat

text \<open>
  The manager lookup and the decoding of the body come before the \<open>try\<close>; only the call
  of the manager and the building of the response are inside it.
\<close>

definition smartapp_webhook :: "hass \<Rightarrow> string \<Rightarrow> request \<Rightarrow> exn + response" where
  "smartapp_webhook h webhook_id req =
     (case data_manager h of
        None \<Rightarrow> Inl KeyError
      | Some manager \<Rightarrow>
          (case request_json req of
             Inl e \<Rightarrow> Inl e
           | Inr data \<Rightarrow>
               (case handle_request manager data (headers req) of
                  Inr result \<Rightarrow> Inr (Json_response result)
                | Inl e \<Rightarrow> Inr (Response 500))))"

section \<open>Configuration flow (\<open>config_flow.py\<close>, \<open>SmartThingsFlowHandler\<close>)\<close>

subsection \<open>Keys and the credential pattern\<close>

definition CONF_ACCESS_TOKEN :: string where "CONF_ACCESS_TOKEN = ''access_token''"
definition CONF_CLIENT_ID :: string where "CONF_CLIENT_ID = ''client_id''"
definition CONF_CLIENT_SECRET :: string where "CONF_CLIENT_SECRET = ''client_secret''"
definition CONF_APP_ID :: string where "CONF_APP_ID = ''app_id''"
definition CONF_INSTALLED_APP_ID :: string where "CONF_INSTALLED_APP_ID = ''installed_app_id''"
definition CONF_LOCATION_ID :: string where "CONF_LOCATION_ID = ''location_id''"
definition CONF_REFRESH_TOKEN :: string where "CONF_REFRESH_TOKEN = ''refresh_token''"

text \<open>The character class \<open>[0-9a-fA-F]\<close>.\<close>

definition hex_digit :: "char \<Rightarrow> bool" where
  "hex_digit c \<longleftrightarrow> c \<in> set ''0123456789abcdefABCDEF''"

text \<open>
  A run of groups of hexadecimal digits of the given lengths with a hyphen between
  neighbours, covering the whole string.
\<close>

fun hex_groups :: "nat list \<Rightarrow> string \<Rightarrow> bool" where
  "hex_groups [] s = (s = [])"
| "hex_groups [n] s = (length s = n \<and> list_all hex_digit s)"
| "hex_groups (n # m # ns) s =
     (length (take n s) = n \<and> list_all hex_digit (take n s) \<and>
      (case drop n s of
         [] \<Rightarrow> False
       | c # rest \<Rightarrow> c = CHR ''-'' \<and> hex_groups (m # ns) rest))"

text \<open>
  \<open>VAL_UID\<close>: 32 hexadecimal digits, or the groups 8-4-4-4-12. The pattern is anchored
  with \<open>^\<close> and \<open>$\<close> and applied with \<open>match\<close>; in Python \<open>$\<close> also matches just before a
  line feed that ends the string.
\<close>

definition VAL_UID_alternatives :: "string \<Rightarrow> bool" where
  "VAL_UID_alternatives s \<longleftrightarrow> hex_groups [32] s \<or> hex_groups [8, 4, 4, 4, 12] s"

definition VAL_UID_MATCHER_match :: "string \<Rightarrow> bool" where
  "VAL_UID_MATCHER_match s \<longleftrightarrow>
     VAL_UID_alternatives s \<or>
     (case rev s of
        [] \<Rightarrow> False
      | c # front \<Rightarrow> c = CHR 0x0A \<and> VAL_UID_alternatives (rev front))"

subsection \<open>Session state and step results\<close>

text \<open>
  The attributes of one flow handler. \<open>__init__\<close> sets the first six; \<open>api\<close>, \<open>app_id\<close> and
  \<open>location_id\<close> are only annotated in the class body, so they do not exist until a step
  assigns them, and reading one before that raises \<open>AttributeError\<close>. For these three
  \<open>None\<close> stands for the missing attribute; for the others it is Python's \<open>None\<close>. The
  client object \<open>api\<close> is represented by the token it was built with.
\<close>

record flow_handler =
  access_token :: "string option"
  oauth_client_secret :: "string option"
  oauth_client_id :: "string option"
  installed_app_id :: "string option"
  refresh_token :: "string option"
  endpoints_initialized :: bool
  api :: "string option"
  app_id :: "string option"
  location_id :: "string option"

definition init_flow_handler :: flow_handler where
  "init_flow_handler =
     \<lparr>access_token = None, oauth_client_secret = None, oauth_client_id = None,
      installed_app_id = None, refresh_token = None, endpoints_initialized = False,
      api = None, app_id = None, location_id = None\<rparr>"

text \<open>The objects the helpers and the client hand back, reduced to the fields read here.\<close>

record app_entity =
  entity_app_id :: string

record app_oauth_client =
  client_id :: string
  client_secret :: string

record location_entity =
  entity_location_id :: string
  entity_name :: string

text \<open>
  The helpers \<open>find_app\<close>, \<open>update_app\<close>, \<open>create_app\<close> and \<open>setup_smartapp\<close>, and the client
  methods \<open>refresh\<close> and \<open>locations\<close>, are not part of the modelled code. The environment
  says what each of them answers when a step calls it: a value, or the exception raised.
\<close>

record flow_env =
  find_app_result :: "exn + app_entity option"
  refresh_result :: "exn + unit"
  update_app_result :: "exn + unit"
  create_app_result :: "exn + app_entity \<times> app_oauth_client"
  setup_smartapp_result :: "exn + unit"
  locations_result :: "exn + location_entity list"

datatype flow_call =
    Call_find_app
  | Call_refresh
  | Call_update_app
  | Call_create_app
  | Call_setup_smartapp
  | Call_locations

text \<open>
  The schema of a form, and the address built by \<open>format_install_url\<close> of the client
  library from an app identifier and a location identifier.
\<close>

datatype schema =
    Required_access_token
  | Required_location_id "(string \<times> string) list"

datatype url = Install_url string string

text \<open>
  A Python dictionary is an association list here: the keys in insertion order, each key
  once; \<open>map_of\<close> looks a key up, and the empty list is the empty dictionary.
\<close>

type_synonym 'v dict = "(string \<times> 'v) list"

text \<open>
  What a step returns to the flow manager: a form (step, schema, errors if any were
  passed), an abort with its reason, an external step (step, address), or the entry to
  persist (title, data).
\<close>

datatype flow_result =
    Form string schema "(string \<times> string) list option"
  | Abort string
  | External_step string url
  | Create_entry string "(string \<times> string option) list"

text \<open>
  A step yields its result or the exception it raises, the handler as the step left it,
  and the helper calls it made, in order.
\<close>

type_synonym step_outcome = "(exn + flow_result) \<times> flow_handler \<times> flow_call list"

subsection \<open>The steps\<close>

definition show_step_pat :: "string dict \<Rightarrow> flow_result" where
  "show_step_pat errors = Form ''pat'' Required_access_token (Some errors)"

text \<open>
  \<open>async_step_authorize\<close>. The test \<open>if user_input:\<close> is true for a dictionary with at
  least one key. The dictionary literal reads \<open>self.location_id\<close> before \<open>self.app_id\<close>;
  \<open>format_install_url\<close> receives them in the other order.
\<close>

definition authorize_prompt :: "flow_handler \<Rightarrow> step_outcome" where
  "authorize_prompt self =
     (case app_id self of
        None \<Rightarrow> (Inl AttributeError, self, [])
      | Some a \<Rightarrow>
          (case location_id self of
             None \<Rightarrow> (Inl AttributeError, self, [])
           | Some l \<Rightarrow> (Inr (External_step ''authorize'' (Install_url a l)), self, [])))"

definition async_step_authorize :: "string dict option \<Rightarrow> flow_handler \<Rightarrow> step_outcome" where
  "async_step_authorize user_input self =
     (case user_input of
        None \<Rightarrow> authorize_prompt self
      | Some payload \<Rightarrow>
          if payload = [] then authorize_prompt self
          else
            (let self1 = self\<lparr>installed_app_id := map_of payload CONF_INSTALLED_APP_ID,
                              refresh_token := map_of payload CONF_REFRESH_TOKEN\<rparr>
             in case location_id self1 of
                  None \<Rightarrow> (Inl AttributeError, self1, [])
                | Some l \<Rightarrow>
                    (case app_id self1 of
                       None \<Rightarrow> (Inl AttributeError, self1, [])
                     | Some a \<Rightarrow>
                         (Inr (Create_entry ''SmartThings''
                                [(CONF_ACCESS_TOKEN, access_token self1),
                                 (CONF_REFRESH_TOKEN, refresh_token self1),
                                 (CONF_CLIENT_ID, oauth_client_id self1),
                                 (CONF_CLIENT_SECRET, oauth_client_secret self1),
                                 (CONF_LOCATION_ID, Some l),
                                 (CONF_APP_ID, Some a),
                                 (CONF_INSTALLED_APP_ID, installed_app_id self1)]),
                          self1, []))))"

text \<open>
  \<open>async_step_select_location\<close>. The branch is chosen by the submitted input alone. The
  listing is not inside a \<open>try\<close>.
\<close>

definition locations_options_of :: "location_entity list \<Rightarrow> string dict" where
  "locations_options_of locations =
     fold (\<lambda>location options.
             AList.update (entity_location_id location) (entity_name location) options)
       locations []"

definition async_step_select_location ::
  "flow_env \<Rightarrow> string dict option \<Rightarrow> flow_handler \<Rightarrow> step_outcome" where
  "async_step_select_location env user_input self =
     (case (case user_input of None \<Rightarrow> None | Some submitted \<Rightarrow> map_of submitted CONF_LOCATION_ID) of
        None \<Rightarrow>
          (case api self of
             None \<Rightarrow> (Inl AttributeError, self, [])
           | Some token \<Rightarrow>
               (case locations_result env of
                  Inl e \<Rightarrow> (Inl e, self, [Call_locations])
                | Inr locations \<Rightarrow>
                    if locations_options_of locations = []
                    then (Inr (Abort ''no_available_locations''), self, [Call_locations])
                    else (Inr (Form ''select_location''
                                 (Required_location_id (locations_options_of locations)) None),
                          self, [Call_locations])))
      | Some selected \<Rightarrow> async_step_authorize None (self\<lparr>location_id := Some selected\<rparr>))"

text \<open>
  The body of the \<open>try\<close> in \<open>async_step_pat\<close>: look the app up; refresh and update it when
  it exists, create it and keep the OAuth client otherwise; then set the SmartApp up.
\<close>

definition pat_try_block :: "flow_env \<Rightarrow> flow_handler \<Rightarrow> (exn + unit) \<times> flow_handler \<times> flow_call list" where
  "pat_try_block env self =
     (case find_app_result env of
        Inl ex \<Rightarrow> (Inl ex, self, [Call_find_app])
      | Inr (Some app) \<Rightarrow>
          (case refresh_result env of
             Inl ex \<Rightarrow> (Inl ex, self, [Call_find_app, Call_refresh])
           | Inr u \<Rightarrow>
               (case update_app_result env of
                  Inl ex \<Rightarrow> (Inl ex, self, [Call_find_app, Call_refresh, Call_update_app])
                | Inr u \<Rightarrow>
                    (let self1 = self\<lparr>app_id := Some (entity_app_id app)\<rparr>;
                         cs = [Call_find_app, Call_refresh, Call_update_app, Call_setup_smartapp]
                     in case setup_smartapp_result env of
                          Inl ex \<Rightarrow> (Inl ex, self1, cs)
                        | Inr u \<Rightarrow> (Inr (), self1, cs))))
      | Inr None \<Rightarrow>
          (case create_app_result env of
             Inl ex \<Rightarrow> (Inl ex, self, [Call_find_app, Call_create_app])
           | Inr (app, client) \<Rightarrow>
               (let self1 = self\<lparr>oauth_client_id := Some (client_id client),
                                 oauth_client_secret := Some (client_secret client),
                                 app_id := Some (entity_app_id app)\<rparr>;
                    cs = [Call_find_app, Call_create_app, Call_setup_smartapp]
                in case setup_smartapp_result env of
                     Inl ex \<Rightarrow> (Inl ex, self1, cs)
                   | Inr u \<Rightarrow> (Inr (), self1, cs))))"

text \<open>
  \<open>async_step_pat\<close>. The handler of the \<open>try\<close> names two exception classes; any other
  exception leaves the step.
\<close>

definition async_step_pat ::
  "flow_env \<Rightarrow> string dict option \<Rightarrow> flow_handler \<Rightarrow> step_outcome" where
  "async_step_pat env user_input self =
     (case (case user_input of None \<Rightarrow> None | Some submitted \<Rightarrow> map_of submitted CONF_ACCESS_TOKEN) of
        None \<Rightarrow> (Inr (show_step_pat []), self, [])
      | Some token \<Rightarrow>
          (let self1 = self\<lparr>access_token := Some token\<rparr>
           in if \<not> VAL_UID_MATCHER_match token
              then (Inr (show_step_pat [(CONF_ACCESS_TOKEN, ''token_invalid_format'')]), self1, [])
              else
                (case pat_try_block env (self1\<lparr>api := Some token\<rparr>) of
                   (Inl ex, self2, cs) \<Rightarrow>
                     if ex = APIResponseError \<or> ex = ClientResponseError
                     then (Inr (show_step_pat [(''base'', ''app_setup_error'')]), self2, cs)
                     else (Inl ex, self2, cs)
                 | (Inr u, self2, cs) \<Rightarrow>
                     (case async_step_select_location env None self2 of
                        (result, self3, cs') \<Rightarrow> (result, self3, cs @ cs')))))"

section \<open>Scenarios\<close>

text \<open>
  Concrete inputs on which the statements below are exercised: two devices, an allowlist,
  a remote state with one wanted, one stale and one duplicated subscription, a schedule of
  the tasks the pass plans for it, and an API on which one create call fails.
\<close>

definition example_allowlist :: "capability list" where
  "example_allowlist = [''switch'', ''switchLevel'', ''thermostatMode'', ''healthCheck'']"

definition example_devices :: "device list" where
  "example_devices =
     [\<lparr>device_id = ''d1'', capabilities = [''switch'', ''switchLevel'', ''healthCheck'']\<rparr>,
      \<lparr>device_id = ''d2'', capabilities = [''switch'', ''thermostatMode'']\<rparr>]"

definition example_subscription :: "nat \<Rightarrow> capability \<Rightarrow> subscription" where
  "example_subscription n c =
     \<lparr>subscription_id = n, sub_installed_app_id = ''app'', sub_location_id = ''loc'',
      source_type = CAPABILITY, capability = c\<rparr>"

definition example_remote :: remote where
  "example_remote =
     \<lparr>next_id = 2,
      subs = [example_subscription 0 ''switch'', example_subscription 1 ''battery'']\<rparr>"

definition example_order :: "task list" where
  "example_order =
     [Create_task ''thermostatMode'', Delete_task (example_subscription 1 ''battery''),
      Create_task ''switchLevel'']"

definition example_converged :: remote where
  "example_converged =
     \<lparr>next_id = 4,
      subs = [example_subscription 0 ''switch'', example_subscription 2 ''thermostatMode'',
              example_subscription 3 ''switchLevel'']\<rparr>"

definition example_after_pass :: sync_state where
  "example_after_pass =
     \<lparr>calls = [Call_subscriptions ''app'', Call_create_subscription ''thermostatMode'',
               Call_delete_subscription ''app'' 1, Call_create_subscription ''switchLevel''],
      logged = [Created ''thermostatMode'', Removed ''battery'', Created ''switchLevel''],
      cloud = example_converged\<rparr>"

definition example_duplicated :: remote where
  "example_duplicated =
     \<lparr>next_id = 3,
      subs = [example_subscription 0 ''switch'', example_subscription 1 ''switch'',
              example_subscription 2 ''switch'']\<rparr>"

definition example_duplicated_order :: "task list" where
  "example_duplicated_order =
     [Create_task ''switchLevel'', Delete_task (example_subscription 2 ''switch''),
      Create_task ''thermostatMode'', Delete_task (example_subscription 1 ''switch'')]"

definition example_deduplicated :: sync_state where
  "example_deduplicated =
     \<lparr>calls = [Call_subscriptions ''app'', Call_create_subscription ''switchLevel'',
               Call_delete_subscription ''app'' 2, Call_create_subscription ''thermostatMode'',
               Call_delete_subscription ''app'' 1],
      logged = [Created ''switchLevel'', Removed ''switch'', Created ''thermostatMode'',
                Removed ''switch''],
      cloud = \<lparr>next_id = 5,
               subs = [example_subscription 0 ''switch'', example_subscription 3 ''switchLevel'',
                       example_subscription 4 ''thermostatMode'']\<rparr>\<rparr>"

definition fails_for :: "capability \<Rightarrow> capability \<Rightarrow> exn option" where
  "fails_for c target = (if target = c then Some APIResponseError else None)"

definition example_flaky :: api_env where
  "example_flaky =
     \<lparr>subscriptions_error = None, create_error = fails_for ''switchLevel'',
      delete_error = never_fails\<rparr>"

definition example_unlisted :: api_env where
  "example_unlisted =
     \<lparr>subscriptions_error = Some APIResponseError, create_error = never_fails,
      delete_error = never_fails\<rparr>"

text \<open>
  For the flow: an account with one registered app and one location, a well-formed
  token, and a session that has passed the credential step and stored a location.
\<close>

definition example_env :: flow_env where
  "example_env =
     \<lparr>find_app_result = Inr (Some \<lparr>entity_app_id = ''app-1''\<rparr>),
      refresh_result = Inr (),
      update_app_result = Inr (),
      create_app_result =
        Inr (\<lparr>entity_app_id = ''app-2''\<rparr>, \<lparr>client_id = ''cid'', client_secret = ''secret''\<rparr>),
      setup_smartapp_result = Inr (),
      locations_result = Inr [\<lparr>entity_location_id = ''loc-1'', entity_name = ''Home''\<rparr>]\<rparr>"

definition example_token :: string where
  "example_token = ''0123456789abcdef0123456789ABCDEF''"

text \<open>The same token followed by a line feed, as a pasted line can be.\<close>

definition example_token_line_feed :: string where
  "example_token_line_feed = example_token @ [CHR 0x0A]"

definition example_session :: flow_handler where
  "example_session =
     init_flow_handler\<lparr>access_token := Some example_token, api := Some example_token,
                       app_id := Some ''app-1'', location_id := Some ''loc-1''\<rparr>"

definition example_credentials :: "string dict" where
  "example_credentials = [(CONF_ACCESS_TOKEN, example_token)]"

text \<open>
  The same account without locations; the account when the connection drops at the first
  call; the account when the platform answers the refresh with an error status.
\<close>

definition example_no_locations :: flow_env where
  "example_no_locations = example_env\<lparr>locations_result := Inr []\<rparr>"

definition example_offline :: flow_env where
  "example_offline = example_env\<lparr>find_app_result := Inl ClientConnectionError\<rparr>"

definition example_refused :: flow_env where
  "example_refused = example_env\<lparr>refresh_result := Inl ClientResponseError\<rparr>"

section \<open>Properties of the subscription pass\<close>

subsection \<open>The difference with the remote list\<close>

lemma find_differences_acc:
  "find_differences xs caps acc =
     (fst (find_differences xs caps []), acc @ snd (find_differences xs caps []))"
proof (induction xs arbitrary: caps acc)
  case Nil
  show ?case by simp
next
  case (Cons x xs)
  show ?case
  proof (cases "capability x \<in> caps")
    case True
    then show ?thesis using Cons.IH [of "caps - {capability x}" acc] by simp
  next
    case False
    then show ?thesis
      using Cons.IH [of caps "acc @ [x]"] Cons.IH [of caps "[x]"] by simp
  qed
qed

lemma find_differences_remaining:
  "fst (find_differences xs caps acc) = caps - capability ` set xs"
  by (induction xs arbitrary: caps acc) auto

lemma find_differences_subset:
  "set (snd (find_differences xs caps [])) \<subseteq> set xs"
proof (induction xs arbitrary: caps)
  case Nil
  show ?case by simp
next
  case (Cons x xs)
  show ?case
  proof (cases "capability x \<in> caps")
    case True
    then show ?thesis using Cons.IH [of "caps - {capability x}"] by auto
  next
    case False
    have "snd (find_differences (x # xs) caps []) = x # snd (find_differences xs caps [])"
      using False find_differences_acc [of xs caps "[x]"] by simp
    then show ?thesis using Cons.IH [of caps] by auto
  qed
qed

lemma find_differences_distinct_caps:
  "distinct (map capability xs) \<Longrightarrow>
   snd (find_differences xs caps []) = filter (\<lambda>s. capability s \<notin> caps) xs"
proof (induction xs arbitrary: caps)
  case Nil
  show ?case by simp
next
  case (Cons x xs)
  show ?case
  proof (cases "capability x \<in> caps")
    case True
    have "filter (\<lambda>s. capability s \<notin> caps - {capability x}) xs = filter (\<lambda>s. capability s \<notin> caps) xs"
      using Cons.prems by (intro filter_cong) (auto simp: image_iff)
    then show ?thesis using True Cons by simp
  next
    case False
    have "snd (find_differences (x # xs) caps []) = x # snd (find_differences xs caps [])"
      using False find_differences_acc [of xs caps "[x]"] by simp
    then show ?thesis using False Cons by simp
  qed
qed

lemma find_differences_append:
  "find_differences (xs @ ys) caps acc =
     find_differences ys (fst (find_differences xs caps acc)) (snd (find_differences xs caps acc))"
  by (induction xs arbitrary: caps acc) auto

lemma kept_caps:
  "distinct (map subscription_id xs) \<Longrightarrow>
   distinct (map capability (kept_subscriptions xs caps)) \<and>
   capability ` set (kept_subscriptions xs caps) = caps \<inter> capability ` set xs"
proof (induction xs arbitrary: caps)
  case Nil
  show ?case by (simp add: kept_subscriptions_def)
next
  case (Cons x xs)
  have dx: "distinct (map subscription_id xs)" and nx: "subscription_id x \<notin> subscription_id ` set xs"
    using Cons.prems by auto
  show ?case
  proof (cases "capability x \<in> caps")
    case True
    let ?D = "snd (find_differences xs (caps - {capability x}) [])"
    have "subscription_id x \<notin> subscription_id ` set ?D"
      using nx find_differences_subset [of xs "caps - {capability x}"] by auto
    then have k: "kept_subscriptions (x # xs) caps = x # kept_subscriptions xs (caps - {capability x})"
      using True by (simp add: kept_subscriptions_def)
    show ?thesis using Cons.IH [OF dx, of "caps - {capability x}"] True by (auto simp: k)
  next
    case False
    let ?D = "snd (find_differences xs caps [])"
    have d: "snd (find_differences (x # xs) caps []) = x # ?D"
      using False find_differences_acc [of xs caps "[x]"] by simp
    have "filter (\<lambda>s. subscription_id s \<notin> subscription_id ` set (x # ?D)) xs
          = filter (\<lambda>s. subscription_id s \<notin> subscription_id ` set ?D) xs"
    proof (intro filter_cong refl)
      fix s assume "s \<in> set xs"
      then have "subscription_id s \<noteq> subscription_id x" using nx by (metis imageI)
      then show "(subscription_id s \<notin> subscription_id ` set (x # ?D))
                 = (subscription_id s \<notin> subscription_id ` set ?D)" by simp
    qed
    then have k: "kept_subscriptions (x # xs) caps = kept_subscriptions xs caps"
      unfolding kept_subscriptions_def d by simp
    show ?thesis using Cons.IH [OF dx, of caps] False by (auto simp: k)
  qed
qed

lemma kept_distinct_caps:
  assumes "distinct (map subscription_id xs)" "distinct (map capability xs)"
  shows "kept_subscriptions xs caps = filter (\<lambda>s. capability s \<in> caps) xs"
proof -
  have "subscription_id s \<notin> subscription_id ` set (filter (\<lambda>s. capability s \<notin> caps) xs)
        \<longleftrightarrow> capability s \<in> caps" if "s \<in> set xs" for s
    using that assms(1) by (auto simp: distinct_map inj_on_def)
  then show ?thesis
    unfolding kept_subscriptions_def find_differences_distinct_caps [OF assms(2)]
    by (intro filter_cong) auto
qed


lemma run_task_total:
  "\<exists>st'. run_task env a l t st = Inr st' \<and> calls st' = calls st @ [call_of a t]
     \<and> logged st' = logged st @ [outcome env t]"
  by (cases t)
     (auto simp: create_subscription_def delete_subscription_def Let_def
        api_create_subscription_def api_delete_subscription_def split: option.splits)

lemma gather_total:
  "\<exists>st'. gather env a l ts st = Inr st' \<and> calls st' = calls st @ map (call_of a) ts
     \<and> logged st' = logged st @ map (outcome env) ts"
proof (induction ts arbitrary: st)
  case Nil
  show ?case by simp
next
  case (Cons t ts)
  obtain st1 where st1: "run_task env a l t st = Inr st1" "calls st1 = calls st @ [call_of a t]"
      "logged st1 = logged st @ [outcome env t]"
    using run_task_total by blast
  show ?case using Cons.IH [of st1] st1 by auto
qed

lemma run_task_reliable:
  "run_task reliable a l (Delete_task d) st =
     Inr (st\<lparr>calls := calls st @ [Call_delete_subscription a (subscription_id d)],
             logged := logged st @ [Removed (capability d)],
             cloud := (cloud st)\<lparr>subs := filter (\<lambda>s. subscription_id s \<noteq> subscription_id d) (subs (cloud st))\<rparr>\<rparr>)"
  "run_task reliable a l (Create_task c) st =
     Inr (st\<lparr>calls := calls st @ [Call_create_subscription c],
             logged := logged st @ [Created c],
             cloud := (cloud st)\<lparr>next_id := Suc (next_id (cloud st)),
               subs := subs (cloud st) @ [\<lparr>subscription_id = next_id (cloud st), sub_installed_app_id = a,
                 sub_location_id = l, source_type = CAPABILITY, capability = c\<rparr>]\<rparr>\<rparr>)"
  by (simp_all add: create_subscription_def delete_subscription_def Let_def reliable_def
        never_fails_def api_create_subscription_def api_delete_subscription_def)

lemma gather_cloud:
  assumes "\<forall>s \<in> set (deletes_of ts). subscription_id s < next_id (cloud st)"
    and "gather reliable a l ts st = Inr st'"
  shows "\<exists>new. subs (cloud st') =
           filter (\<lambda>s. subscription_id s \<notin> subscription_id ` set (deletes_of ts)) (subs (cloud st)) @ new
         \<and> map capability new = creates_of ts"
  using assms
proof (induction ts arbitrary: st)
  case Nil
  then show ?case by simp
next
  case (Cons t ts)
  show ?case
  proof (cases t)
    case (Delete_task d)
    obtain st1 where st1: "run_task reliable a l t st = Inr st1"
      and c: "cloud st1 = (cloud st)\<lparr>subs := filter (\<lambda>s. subscription_id s \<noteq> subscription_id d) (subs (cloud st))\<rparr>"
      unfolding Delete_task run_task_reliable by simp
    have p1: "\<forall>s \<in> set (deletes_of ts). subscription_id s < next_id (cloud st1)"
      using Cons.prems(1) Delete_task by (simp add: c)
    have g: "gather reliable a l ts st1 = Inr st'"
      using Cons.prems(2) st1 by simp
    obtain new where new: "subs (cloud st') =
           filter (\<lambda>s. subscription_id s \<notin> subscription_id ` set (deletes_of ts)) (subs (cloud st1)) @ new"
         "map capability new = creates_of ts"
      using Cons.IH [OF p1 g] by blast
    have "filter (\<lambda>s. subscription_id s \<notin> subscription_id ` set (deletes_of ts)) (subs (cloud st1))
       = filter (\<lambda>s. subscription_id s \<notin> subscription_id ` set (deletes_of (t # ts))) (subs (cloud st))"
      unfolding c using Delete_task by (auto intro: filter_cong)
    then show ?thesis using new Delete_task by simp
  next
    case (Create_task c)
    let ?n = "\<lparr>subscription_id = next_id (cloud st), sub_installed_app_id = a,
                 sub_location_id = l, source_type = CAPABILITY, capability = c\<rparr>"
    obtain st1 where st1: "run_task reliable a l t st = Inr st1"
      and c': "cloud st1 = (cloud st)\<lparr>next_id := Suc (next_id (cloud st)), subs := subs (cloud st) @ [?n]\<rparr>"
      unfolding Create_task run_task_reliable by simp
    have p0: "\<forall>s \<in> set (deletes_of ts). subscription_id s < next_id (cloud st)"
      using Cons.prems(1) Create_task by simp
    then have p1: "\<forall>s \<in> set (deletes_of ts). subscription_id s < next_id (cloud st1)"
      by (simp add: c' less_Suc_eq)
    have g: "gather reliable a l ts st1 = Inr st'"
      using Cons.prems(2) st1 by simp
    obtain new where new: "subs (cloud st') =
           filter (\<lambda>s. subscription_id s \<notin> subscription_id ` set (deletes_of ts)) (subs (cloud st1)) @ new"
         "map capability new = creates_of ts"
      using Cons.IH [OF p1 g] by blast
    have "subscription_id ?n \<notin> subscription_id ` set (deletes_of ts)"
      using p0 by auto
    moreover have "deletes_of (t # ts) = deletes_of ts"
      using Create_task by simp
    ultimately have "subs (cloud st') =
        filter (\<lambda>s. subscription_id s \<notin> subscription_id ` set (deletes_of (t # ts))) (subs (cloud st)) @ (?n # new)"
      using new(1) by (simp add: c')
    moreover have "map capability (?n # new) = creates_of (t # ts)"
      using new(2) Create_task by simp
    ultimately show ?thesis by blast
  qed
qed

lemma schedule_nil: "deletes_of ts = [] \<Longrightarrow> creates_of ts = [] \<Longrightarrow> ts = []"
  by (induction ts rule: deletes_of.induct) auto

lemma desired_capabilities_eq:
  "desired_capabilities K devices =
     ((\<Union>device \<in> set devices. set (capabilities device)) \<inter> set K)
       - {''execute'', ''healthCheck'', ''ocf''}"
proof -
  have "fold (\<lambda>device caps. caps \<union> set (capabilities device)) ds A
        = A \<union> (\<Union>device \<in> set ds. set (capabilities device))" for ds :: "device list" and A :: "capability set"
    by (induction ds arbitrary: A) auto
  then show ?thesis
    by (simp add: desired_capabilities_def IGNORED_CAPABILITIES_def)
qed

text \<open>What a pass over a reliable API does, for every schedule of its tasks.\<close>

lemma pass_reliable:
  assumes ok: "remote_ok r"
    and sch: "is_schedule (sync_plan K devices (subs r)) order"
  shows "\<exists>st new. smartapp_sync_subscriptions K reliable loc app devices order r = Inr st
     \<and> calls st = Call_subscriptions app # map (call_of app) order
     \<and> subs (cloud st) = kept_subscriptions (subs r) (desired_capabilities K devices) @ new
     \<and> map capability new = creates_of order"
proof -
  let ?T = "desired_capabilities K devices"
  let ?st0 = "\<lparr>calls = [Call_subscriptions app], logged = warning_log ?T, cloud = r\<rparr>"
  obtain remaining deletions where fd: "find_differences (subs r) ?T [] = (remaining, deletions)"
    by (cases "find_differences (subs r) ?T []")
  have dels: "mset (deletes_of order) = mset deletions"
    and cre: "set (creates_of order) = remaining"
    using sch by (simp_all add: is_schedule_def sync_plan_def fd)
  obtain st1 where st1: "gather reliable app loc order ?st0 = Inr st1"
      "calls st1 = calls ?st0 @ map (call_of app) order"
    using gather_total [of reliable app loc order ?st0] by blast
  have sd: "set (deletes_of order) = set deletions"
    using dels by (rule mset_eq_setD)
  have "set deletions \<subseteq> set (subs r)"
    using find_differences_subset [of "subs r" ?T] by (simp add: fd)
  then have "\<forall>s \<in> set (deletes_of order). subscription_id s < next_id (cloud ?st0)"
    using ok sd by (auto simp: remote_ok_def list_all_iff)
  from gather_cloud [OF this st1(1)]
  obtain new where new: "subs (cloud st1) =
      filter (\<lambda>s. subscription_id s \<notin> subscription_id ` set (deletes_of order)) (subs r) @ new"
      "map capability new = creates_of order"
    by auto
  have k: "filter (\<lambda>s. subscription_id s \<notin> subscription_id ` set (deletes_of order)) (subs r)
           = kept_subscriptions (subs r) ?T"
    by (simp add: kept_subscriptions_def fd sd)
  show ?thesis
  proof (cases "deletions \<noteq> [] \<or> remaining \<noteq> {}")
    case True
    then have "smartapp_sync_subscriptions K reliable loc app devices order r = Inr st1"
      using st1(1)
      by (simp add: smartapp_sync_subscriptions_def api_subscriptions_def reliable_def fd Let_def)
    then show ?thesis using st1(2) new k by simp
  next
    case False
    then have "order = []"
      using dels cre by (intro schedule_nil) auto
    then have "st1 = ?st0" using st1(1) by simp
    moreover have "smartapp_sync_subscriptions K reliable loc app devices order r
        = Inr (?st0\<lparr>logged := logged ?st0 @ [Up_to_date]\<rparr>)"
      using False
      by (simp add: smartapp_sync_subscriptions_def api_subscriptions_def reliable_def fd Let_def)
    ultimately show ?thesis using st1(2) new k \<open>order = []\<close> by simp
  qed
qed

lemma pass_converges:
  assumes ok: "remote_ok r"
    and sch: "is_schedule (sync_plan K devices (subs r)) order"
    and res: "smartapp_sync_subscriptions K reliable loc app devices order r = Inr st"
  shows "distinct (map capability (subs (cloud st)))"
    and "capability ` set (subs (cloud st)) = desired_capabilities K devices"
proof -
  let ?T = "desired_capabilities K devices"
  obtain new where new: "subs (cloud st) = kept_subscriptions (subs r) ?T @ new"
      "map capability new = creates_of order"
    using pass_reliable [OF ok sch, of loc app] res by auto
  have d: "distinct (map subscription_id (subs r))"
    using ok by (simp add: remote_ok_def)
  note kc = kept_caps [OF d, of ?T]
  have cre: "set (creates_of order) = ?T - capability ` set (subs r)" "distinct (creates_of order)"
    using sch find_differences_remaining [of "subs r" ?T "[]"]
    by (simp_all add: is_schedule_def sync_plan_def)
  have cn: "capability ` set new = ?T - capability ` set (subs r)"
    using new(2) cre(1) by (metis set_map)
  have "set (map capability (kept_subscriptions (subs r) ?T)) \<inter> set (map capability new) = {}"
    unfolding set_map using kc cn by blast
  then show "distinct (map capability (subs (cloud st)))"
    unfolding new(1) map_append distinct_append using kc cre(2) new(2) by simp
  show "capability ` set (subs (cloud st)) = ?T"
    using kc cn by (auto simp: new(1) image_Un)
qed

subsection \<open>Failing calls\<close>

lemma pass_absorbs:
  assumes "subscriptions_error env = None"
  shows "\<exists>st. smartapp_sync_subscriptions K env loc app devices order r = Inr st
     \<and> (order \<noteq> [] \<longrightarrow>
          snd (sync_plan K devices (subs r)) \<noteq> [] \<or> fst (sync_plan K devices (subs r)) \<noteq> {} \<longrightarrow>
          calls st = Call_subscriptions app # map (call_of app) order
          \<and> logged st = warning_log (desired_capabilities K devices) @ map (outcome env) order)"
proof -
  let ?T = "desired_capabilities K devices"
  let ?st0 = "\<lparr>calls = [Call_subscriptions app], logged = warning_log ?T, cloud = r\<rparr>"
  obtain remaining deletions where fd: "find_differences (subs r) ?T [] = (remaining, deletions)"
    by (cases "find_differences (subs r) ?T []")
  obtain st1 where st1: "gather env app loc order ?st0 = Inr st1"
      "calls st1 = calls ?st0 @ map (call_of app) order"
      "logged st1 = logged ?st0 @ map (outcome env) order"
    using gather_total [of env app loc order ?st0] by blast
  show ?thesis
  proof (cases "deletions \<noteq> [] \<or> remaining \<noteq> {}")
    case True
    then have "smartapp_sync_subscriptions K env loc app devices order r = Inr st1"
      using st1(1) assms
      by (simp add: smartapp_sync_subscriptions_def api_subscriptions_def fd Let_def)
    then show ?thesis using st1(2,3) by simp
  next
    case False
    then show ?thesis using assms
      by (simp add: smartapp_sync_subscriptions_def api_subscriptions_def sync_plan_def fd Let_def)
  qed
qed

lemma run_task_cloud_success:
  assumes "cloud st = cloud st'" "succeeds env t"
    and "run_task env a l t st = Inr s1" "run_task reliable a l t st' = Inr s2"
  shows "cloud s1 = cloud s2"
  using assms
  by (cases t)
     (auto simp: create_subscription_def delete_subscription_def Let_def reliable_def
        never_fails_def api_create_subscription_def api_delete_subscription_def)

lemma run_task_cloud_failure:
  assumes "\<not> succeeds env t" "run_task env a l t st = Inr s1"
  shows "cloud s1 = cloud st"
  using assms
  by (cases t)
     (auto simp: create_subscription_def delete_subscription_def Let_def
        api_create_subscription_def api_delete_subscription_def)

lemma gather_cloud_independent:
  assumes "cloud st = cloud st'"
    and "gather env a l ts st = Inr s1"
    and "gather reliable a l (filter (succeeds env) ts) st' = Inr s2"
  shows "cloud s1 = cloud s2"
  using assms
proof (induction ts arbitrary: st st')
  case Nil
  then show ?case by simp
next
  case (Cons t ts)
  obtain m where m: "run_task env a l t st = Inr m"
    using run_task_total [of env a l t st] by blast
  have g1: "gather env a l ts m = Inr s1"
    using Cons.prems(2) m by simp
  show ?case
  proof (cases "succeeds env t")
    case True
    obtain m' where m': "run_task reliable a l t st' = Inr m'"
      using run_task_total [of reliable a l t st'] by blast
    have g2: "gather reliable a l (filter (succeeds env) ts) m' = Inr s2"
      using Cons.prems(3) True m' by simp
    have "cloud m = cloud m'"
      using run_task_cloud_success [OF Cons.prems(1) True m m'] .
    then show ?thesis using Cons.IH g1 g2 by blast
  next
    case False
    have g2: "gather reliable a l (filter (succeeds env) ts) st' = Inr s2"
      using Cons.prems(3) False by simp
    have "cloud m = cloud st'"
      using run_task_cloud_failure [OF False m] Cons.prems(1) by simp
    then show ?thesis using Cons.IH g1 g2 by blast
  qed
qed

lemma plan_up_to_date:
  assumes "distinct (map capability xs)" "capability ` set xs = T"
  shows "find_differences xs T [] = ({}, [])"
proof -
  have "fst (find_differences xs T []) = {}"
    using assms(2) by (simp add: find_differences_remaining)
  moreover have "snd (find_differences xs T []) = []"
    using assms by (auto simp: find_differences_distinct_caps filter_empty_conv)
  ultimately show ?thesis by (simp add: prod_eq_iff)
qed

lemma pass_up_to_date:
  assumes "subscriptions_error env = None"
    and "distinct (map capability (subs r))"
    and "capability ` set (subs r) = desired_capabilities K devices"
  shows "smartapp_sync_subscriptions K env loc app devices order r =
           Inr \<lparr>calls = [Call_subscriptions app],
                 logged = warning_log (desired_capabilities K devices) @ [Up_to_date],
                 cloud = r\<rparr>"
  using assms(1) plan_up_to_date [OF assms(2,3)]
  by (simp add: smartapp_sync_subscriptions_def api_subscriptions_def Let_def)

text \<open>Where a subscription with a wanted capability stands in the listing decides its fate.\<close>

lemma delete_call_iff:
  "Call_delete_subscription a i \<in> set (map (call_of a) ts)
     \<longleftrightarrow> i \<in> subscription_id ` set (deletes_of ts)"
  by (induction ts rule: deletes_of.induct) auto

lemma plan_at_duplicate:
  assumes s: "capability s \<in> desired_capabilities K devices"
  shows "snd (sync_plan K devices (xs @ s # ys)) =
        snd (sync_plan K devices xs)
        @ (if capability s \<in> capability ` set xs then [s] else [])
        @ snd (find_differences ys
                 (desired_capabilities K devices - capability ` set (xs @ [s])) [])"
proof -
  let ?T = "desired_capabilities K devices"
  let ?D = "snd (find_differences xs ?T [])"
  let ?R = "?T - capability ` set xs"
  have 1: "find_differences (xs @ s # ys) ?T [] = find_differences (s # ys) ?R ?D"
    using find_differences_append [of xs "s # ys" ?T "[]"]
    by (simp add: find_differences_remaining)
  have 2: "snd (find_differences (s # ys) ?R ?D) =
      ?D @ (if capability s \<in> capability ` set xs then [s] else [])
         @ snd (find_differences ys (?T - capability ` set (xs @ [s])) [])"
  proof (cases "capability s \<in> capability ` set xs")
    case True
    have "?R = ?T - capability ` set (xs @ [s])" using True by auto
    then show ?thesis
      using True find_differences_acc [of ys ?R "?D @ [s]"] by simp
  next
    case False
    have "?R - {capability s} = ?T - capability ` set (xs @ [s])" by auto
    then show ?thesis
      using False s find_differences_acc [of ys "?R - {capability s}" ?D] by simp
  qed
  show ?thesis
    unfolding sync_plan_def 1 2 ..
qed

lemma plan_deletes_member:
  assumes d: "distinct (map subscription_id (xs @ s # ys))"
    and s: "capability s \<in> desired_capabilities K devices"
  shows "s \<in> set (snd (sync_plan K devices (xs @ s # ys)))
           \<longleftrightarrow> capability s \<in> capability ` set xs"
proof -
  have nx: "s \<notin> set xs" and ny: "s \<notin> set ys"
    using d by (auto simp: image_iff)
  have "set (snd (sync_plan K devices xs)) \<subseteq> set xs"
    unfolding sync_plan_def by (rule find_differences_subset)
  then have 1: "s \<notin> set (snd (sync_plan K devices xs))"
    using nx by blast
  have "set (snd (find_differences ys
           (desired_capabilities K devices - capability ` set (xs @ [s])) [])) \<subseteq> set ys"
    by (rule find_differences_subset)
  then have 2: "s \<notin> set (snd (find_differences ys
           (desired_capabilities K devices - capability ` set (xs @ [s])) []))"
    using ny by blast
  show ?thesis
    unfolding plan_at_duplicate [OF s] using 1 2 by simp
qed

lemma pass_duplicates:
  assumes ok: "remote_ok r"
    and sch: "is_schedule (sync_plan K devices (subs r)) order"
    and res: "smartapp_sync_subscriptions K reliable loc app devices order r = Inr st"
    and split: "subs r = xs @ s # ys"
    and s: "capability s \<in> desired_capabilities K devices"
  shows "(Call_delete_subscription app (subscription_id s) \<in> set (calls st))
           = (capability s \<in> capability ` set xs)"
    and "(s \<in> set (subs (cloud st))) = (capability s \<notin> capability ` set xs)"
proof -
  let ?T = "desired_capabilities K devices"
  let ?D = "snd (sync_plan K devices (subs r))"
  obtain new where st: "calls st = Call_subscriptions app # map (call_of app) order"
      "subs (cloud st) = kept_subscriptions (subs r) ?T @ new"
      "map capability new = creates_of order"
    using pass_reliable [OF ok sch, of loc app] res by auto
  have d: "distinct (map subscription_id (subs r))"
    using ok by (simp add: remote_ok_def)
  have inj: "inj_on subscription_id (set (subs r))"
    using d by (simp add: distinct_map)
  have sin: "s \<in> set (subs r)"
    by (simp add: split)
  have sub: "set ?D \<subseteq> set (subs r)"
    unfolding sync_plan_def by (rule find_differences_subset)
  have mem: "s \<in> set ?D \<longleftrightarrow> capability s \<in> capability ` set xs"
    using plan_deletes_member [OF _ s, of xs ys] d by (simp add: split)
  have ids: "subscription_id s \<in> subscription_id ` set ?D \<longleftrightarrow> s \<in> set ?D"
  proof
    assume "subscription_id s \<in> subscription_id ` set ?D"
    then obtain t where t: "t \<in> set ?D" "subscription_id s = subscription_id t"
      by auto
    then have "s = t"
      using inj sin sub by (meson inj_onD subsetD)
    then show "s \<in> set ?D" using t(1) by simp
  next
    assume "s \<in> set ?D"
    then show "subscription_id s \<in> subscription_id ` set ?D" by (rule imageI)
  qed
  have sd: "set (deletes_of order) = set ?D"
    using sch by (auto simp: is_schedule_def dest: mset_eq_setD)
  have "Call_delete_subscription app (subscription_id s) \<in> set (calls st)
          \<longleftrightarrow> subscription_id s \<in> subscription_id ` set (deletes_of order)"
    unfolding st(1) using delete_call_iff [of app "subscription_id s" order] by simp
  then show "(Call_delete_subscription app (subscription_id s) \<in> set (calls st))
           = (capability s \<in> capability ` set xs)"
    using ids mem by (simp add: sd)
  have cre: "set (creates_of order) = ?T - capability ` set (subs r)"
    using sch find_differences_remaining [of "subs r" ?T "[]"]
    by (simp add: is_schedule_def sync_plan_def)
  have "capability s \<notin> set (map capability new)"
    unfolding st(3) cre using sin by simp
  then have nn: "s \<notin> set new"
    by auto
  have "s \<in> set (kept_subscriptions (subs r) ?T)
          \<longleftrightarrow> subscription_id s \<notin> subscription_id ` set ?D"
    using sin by (simp add: kept_subscriptions_def sync_plan_def)
  then show "(s \<in> set (subs (cloud st))) = (capability s \<notin> capability ` set xs)"
    using nn ids mem by (simp add: st(2))
qed

subsection \<open>The scenarios evaluated\<close>

lemmas scenario_defs = example_allowlist_def example_devices_def example_subscription_def
  example_remote_def example_order_def example_converged_def example_duplicated_def
  example_duplicated_order_def fails_for_def example_flaky_def example_unlisted_def
  example_after_pass_def

lemma example_desired:
  "desired_capabilities example_allowlist example_devices =
     {''switch'', ''switchLevel'', ''thermostatMode''}"
  by (auto simp: desired_capabilities_eq scenario_defs)

lemma example_remote_ok: "remote_ok example_remote"
  by (simp add: remote_ok_def scenario_defs)

lemma example_remote_distinct: "distinct (map capability (subs example_remote))"
  by (simp add: scenario_defs)

lemma example_plan:
  "sync_plan example_allowlist example_devices (subs example_remote) =
     ({''switchLevel'', ''thermostatMode''}, [example_subscription 1 ''battery''])"
  unfolding sync_plan_def example_desired by (auto simp: scenario_defs)

lemma example_schedule:
  "is_schedule (sync_plan example_allowlist example_devices (subs example_remote)) example_order"
  unfolding example_plan by (auto simp: is_schedule_def example_order_def)

lemma example_pass:
  "smartapp_sync_subscriptions example_allowlist reliable ''loc'' ''app'' example_devices
     example_order example_remote = Inr example_after_pass"
  using example_plan unfolding sync_plan_def
  by (simp add: smartapp_sync_subscriptions_def Let_def api_subscriptions_def example_desired
        warning_log_def SUBSCRIPTION_WARNING_LIMIT_def reliable_def never_fails_def
        create_subscription_def delete_subscription_def api_create_subscription_def
        api_delete_subscription_def example_order_def example_remote_def example_converged_def
        example_subscription_def example_after_pass_def)

lemma example_converged_distinct: "distinct (map capability (subs example_converged))"
  by (simp add: scenario_defs)

lemma example_converged_caps:
  "capability ` set (subs example_converged) = desired_capabilities example_allowlist example_devices"
  unfolding example_desired by (auto simp: scenario_defs)

lemma example_flaky_lists: "subscriptions_error example_flaky = None"
  by (simp add: example_flaky_def)

lemma example_duplicated_ok: "remote_ok example_duplicated"
  by (simp add: remote_ok_def scenario_defs)

lemma example_duplicated_plan:
  "sync_plan example_allowlist example_devices (subs example_duplicated) =
     ({''switchLevel'', ''thermostatMode''},
      [example_subscription 1 ''switch'', example_subscription 2 ''switch''])"
  unfolding sync_plan_def example_desired by (auto simp: scenario_defs)

lemma example_duplicated_schedule:
  "is_schedule (sync_plan example_allowlist example_devices (subs example_duplicated))
     example_duplicated_order"
  unfolding example_duplicated_plan by (auto simp: is_schedule_def example_duplicated_order_def)

lemma example_duplicate_wanted:
  "capability (example_subscription 1 ''switch'') \<in> desired_capabilities example_allowlist example_devices"
  unfolding example_desired by (simp add: example_subscription_def)

lemma example_duplicated_pass:
  "smartapp_sync_subscriptions example_allowlist reliable ''loc'' ''app'' example_devices
     example_duplicated_order example_duplicated = Inr example_deduplicated"
  using example_duplicated_plan unfolding sync_plan_def
  by (simp add: smartapp_sync_subscriptions_def Let_def api_subscriptions_def example_desired
        warning_log_def SUBSCRIPTION_WARNING_LIMIT_def reliable_def never_fails_def
        create_subscription_def delete_subscription_def api_create_subscription_def
        api_delete_subscription_def example_duplicated_order_def example_duplicated_def
        example_deduplicated_def example_subscription_def)

section \<open>Properties of the configuration flow\<close>

lemmas conf_defs = CONF_ACCESS_TOKEN_def CONF_CLIENT_ID_def CONF_CLIENT_SECRET_def CONF_APP_ID_def
  CONF_INSTALLED_APP_ID_def CONF_LOCATION_ID_def CONF_REFRESH_TOKEN_def

lemma example_token_matches: "VAL_UID_MATCHER_match example_token"
  by (simp add: VAL_UID_MATCHER_match_def VAL_UID_alternatives_def hex_digit_def example_token_def)

text \<open>A token the compiled pattern does not match is turned away before any call.\<close>

lemma pat_rejects_unmatched_token:
  assumes "map_of user_input CONF_ACCESS_TOKEN = Some token"
    and "\<not> VAL_UID_MATCHER_match token"
  shows "async_step_pat env (Some user_input) self =
           (Inr (Form ''pat'' Required_access_token
                   (Some [(CONF_ACCESS_TOKEN, ''token_invalid_format'')])),
            self\<lparr>access_token := Some token\<rparr>, [])"
  using assms by (simp add: async_step_pat_def show_step_pat_def Let_def)

text \<open>The helper calls of the \<open>try\<close> block never include the listing of locations.\<close>

lemma pat_try_block_calls:
  "pat_try_block env self = (r, self', cs) \<Longrightarrow> Call_locations \<notin> set cs"
  by (auto simp: pat_try_block_def Let_def split: sum.splits option.splits prod.splits)

text \<open>What each step does with a submitted input.\<close>

lemma select_location_submitted:
  assumes "map_of submitted CONF_LOCATION_ID = Some selected" and "app_id self = Some a"
  shows "async_step_select_location env (Some submitted) self =
           (Inr (External_step ''authorize'' (Install_url a selected)),
            self\<lparr>location_id := Some selected\<rparr>, [])"
  using assms
  by (simp add: async_step_select_location_def async_step_authorize_def authorize_prompt_def)

lemma authorize_payload:
  assumes "payload \<noteq> []" and "app_id self = Some a" and "location_id self = Some l"
  shows "async_step_authorize (Some payload) self =
           (Inr (Create_entry ''SmartThings''
                  [(CONF_ACCESS_TOKEN, access_token self),
                   (CONF_REFRESH_TOKEN, map_of payload CONF_REFRESH_TOKEN),
                   (CONF_CLIENT_ID, oauth_client_id self),
                   (CONF_CLIENT_SECRET, oauth_client_secret self),
                   (CONF_LOCATION_ID, Some l),
                   (CONF_APP_ID, Some a),
                   (CONF_INSTALLED_APP_ID, map_of payload CONF_INSTALLED_APP_ID)]),
            self\<lparr>installed_app_id := map_of payload CONF_INSTALLED_APP_ID,
                  refresh_token := map_of payload CONF_REFRESH_TOKEN\<rparr>, [])"
  using assms by (simp add: async_step_authorize_def Let_def)

lemma pat_found_handler:
  assumes "map_of credentials CONF_ACCESS_TOKEN = Some token"
    and "find_app_result env = Inr (Some app)"
    and "async_step_pat env (Some credentials) init_flow_handler =
           (Inr (Form ''select_location'' options None), self1, cs1)"
  shows "self1 = init_flow_handler\<lparr>access_token := Some token, api := Some token,
                                    app_id := Some (entity_app_id app)\<rparr>"
  using assms
  by (auto simp: async_step_pat_def Let_def show_step_pat_def pat_try_block_def
        async_step_select_location_def
        split: if_splits sum.splits option.splits prod.splits)

text \<open>A step that has listed the locations and got none aborts.\<close>

lemma select_location_empty_listing:
  assumes "locations_result env = Inr []"
    and "async_step_select_location env user_input self = (result, self', cs)"
    and "Call_locations \<in> set cs"
  shows "result = Inr (Abort ''no_available_locations'') \<and> self' = self \<and> cs = [Call_locations]"
  using assms
  by (auto simp: async_step_select_location_def async_step_authorize_def authorize_prompt_def
        locations_options_of_def split: option.splits)

lemma pat_empty_listing:
  assumes "locations_result env = Inr []"
    and "async_step_pat env user_input self = (result, self', cs)"
    and "Call_locations \<in> set cs"
  shows "result = Inr (Abort ''no_available_locations'')"
  using assms
  by (auto simp: async_step_pat_def Let_def show_step_pat_def async_step_select_location_def
        locations_options_of_def
        dest: pat_try_block_calls split: option.splits if_splits prod.splits sum.splits)

text \<open>The scenarios of the flow, evaluated.\<close>

lemma credentials_token: "map_of example_credentials CONF_ACCESS_TOKEN = Some example_token"
  by (simp add: example_credentials_def)

lemma no_locations_listing: "locations_result example_no_locations = Inr []"
  by (simp add: example_no_locations_def)

lemma no_locations_select:
  "async_step_select_location example_no_locations None example_session =
     (Inr (Abort ''no_available_locations''), example_session, [Call_locations])"
  by (simp add: async_step_select_location_def locations_options_of_def example_no_locations_def
        example_session_def init_flow_handler_def)

lemma no_locations_pat:
  "async_step_pat example_no_locations (Some example_credentials) init_flow_handler =
     (Inr (Abort ''no_available_locations''),
      init_flow_handler\<lparr>access_token := Some example_token, api := Some example_token,
                        app_id := Some ''app-1''\<rparr>,
      [Call_find_app, Call_refresh, Call_update_app, Call_setup_smartapp, Call_locations])"
  by (simp add: async_step_pat_def credentials_token example_token_matches Let_def
        pat_try_block_def async_step_select_location_def locations_options_of_def
        example_no_locations_def example_env_def init_flow_handler_def)

lemma example_pat:
  "async_step_pat example_env (Some example_credentials) init_flow_handler =
     (Inr (Form ''select_location'' (Required_location_id [(''loc-1'', ''Home'')]) None),
      init_flow_handler\<lparr>access_token := Some example_token, api := Some example_token,
                        app_id := Some ''app-1''\<rparr>,
      [Call_find_app, Call_refresh, Call_update_app, Call_setup_smartapp, Call_locations])"
  by (simp add: async_step_pat_def credentials_token example_token_matches Let_def
        pat_try_block_def async_step_select_location_def locations_options_of_def
        example_env_def init_flow_handler_def)

lemma example_found: "find_app_result example_env = Inr (Some \<lparr>entity_app_id = ''app-1''\<rparr>)"
  by (simp add: example_env_def)

lemma example_select:
  "async_step_select_location example_env (Some [(CONF_LOCATION_ID, ''loc-1'')])
     (init_flow_handler\<lparr>access_token := Some example_token, api := Some example_token,
                        app_id := Some ''app-1''\<rparr>) =
     (Inr (External_step ''authorize'' (Install_url ''app-1'' ''loc-1'')), example_session, [])"
  by (simp add: async_step_select_location_def async_step_authorize_def authorize_prompt_def
        example_session_def init_flow_handler_def)

section \<open>The claims\<close>

text \<open>
  C1. The claim is that every exception met while a webhook request is handled becomes a
  response of status 500, bodies that are not valid JSON included. The handler decodes
  the body before it enters its \<open>try\<close> block, so for a request whose body the decoder
  rejects the decoder's exception leaves the handler, whatever the manager and the
  headers are, and no response is built.
\<close>

theorem webhook_decode_error_escapes:
  "smartapp_webhook \<lparr>data_manager = Some m\<rparr> webhook_id
     \<lparr>request_json = Inl JSONDecodeError, headers = hs\<rparr> = Inl JSONDecodeError"
  by (simp add: smartapp_webhook_def)

text \<open>
  C2. Convergence. Take any devices, any allowlist, and any well-formed remote state
  that holds at most one subscription per capability, and let listing, creating and
  deleting all succeed. Then one pass, under every order in which its tasks complete,
  returns and leaves exactly one subscription for each capability of the desired set and
  none for any other capability. The desired set is the union of the devices'
  capabilities, cut down to the allowlist, without the three ignored capabilities. The pass
  issues one listing call and one call per task: a create for each desired capability
  that has no subscription yet, and a delete for each subscription whose capability is
  not desired. The subscriptions with a desired capability stay as they were, in their
  order, and the created ones follow them.
\<close>

theorem sync_converges:
  assumes "remote_ok r"
    and "distinct (map capability (subs r))"
    and "is_schedule (sync_plan K devices (subs r)) order"
  shows "\<exists>st new. smartapp_sync_subscriptions K reliable loc app devices order r = Inr st
     \<and> capability ` set (subs (cloud st)) = desired_capabilities K devices
     \<and> distinct (map capability (subs (cloud st)))
     \<and> desired_capabilities K devices =
         ((\<Union>device \<in> set devices. set (capabilities device)) \<inter> set K)
           - {''execute'', ''healthCheck'', ''ocf''}
     \<and> calls st = Call_subscriptions app # map (call_of app) order
     \<and> distinct (creates_of order)
     \<and> set (creates_of order) = desired_capabilities K devices - capability ` set (subs r)
     \<and> mset (deletes_of order) =
         mset (filter (\<lambda>s. capability s \<notin> desired_capabilities K devices) (subs r))
     \<and> subs (cloud st) =
         filter (\<lambda>s. capability s \<in> desired_capabilities K devices) (subs r) @ new
     \<and> map capability new = creates_of order"
proof -
  let ?T = "desired_capabilities K devices"
  obtain st new where st: "smartapp_sync_subscriptions K reliable loc app devices order r = Inr st"
      "calls st = Call_subscriptions app # map (call_of app) order"
      "subs (cloud st) = kept_subscriptions (subs r) ?T @ new"
      "map capability new = creates_of order"
    using pass_reliable [OF assms(1,3), of loc app] by blast
  have d: "distinct (map subscription_id (subs r))"
    using assms(1) by (simp add: remote_ok_def)
  have k: "kept_subscriptions (subs r) ?T = filter (\<lambda>s. capability s \<in> ?T) (subs r)"
    using kept_distinct_caps [OF d assms(2)] .
  have cre: "distinct (creates_of order)" "set (creates_of order) = ?T - capability ` set (subs r)"
    using assms(3) find_differences_remaining [of "subs r" ?T "[]"]
    by (simp_all add: is_schedule_def sync_plan_def)
  have del: "mset (deletes_of order) = mset (filter (\<lambda>s. capability s \<notin> ?T) (subs r))"
    using assms(3) find_differences_distinct_caps [OF assms(2), of ?T]
    by (simp add: is_schedule_def sync_plan_def)
  note conv = pass_converges [OF assms(1,3) st(1)]
  note eq = desired_capabilities_eq [of K devices]
  have last: "subs (cloud st) = filter (\<lambda>s. capability s \<in> ?T) (subs r) @ new"
    using st(3) by (simp only: k)
  show ?thesis
    apply (rule exI [of _ st])
    apply (rule exI [of _ new])
    apply (intro conjI)
    apply (rule st(1))
    apply (rule conv(2))
    apply (rule conv(1))
    apply (rule eq)
    apply (rule st(2))
    apply (rule cre(1))
    apply (rule cre(2))
    apply (rule del)
    apply (rule last)
    apply (rule st(4))
    done
qed

theorem sync_converges_witness:
  "remote_ok example_remote
   \<and> distinct (map capability (subs example_remote))
   \<and> is_schedule (sync_plan example_allowlist example_devices (subs example_remote)) example_order
   \<and> smartapp_sync_subscriptions example_allowlist reliable ''loc'' ''app'' example_devices
        example_order example_remote = Inr example_after_pass
   \<and> (\<exists>st new. smartapp_sync_subscriptions example_allowlist reliable ''loc'' ''app''
           example_devices example_order example_remote = Inr st
     \<and> capability ` set (subs (cloud st)) = desired_capabilities example_allowlist example_devices
     \<and> distinct (map capability (subs (cloud st)))
     \<and> desired_capabilities example_allowlist example_devices =
         ((\<Union>device \<in> set example_devices. set (capabilities device)) \<inter> set example_allowlist)
           - {''execute'', ''healthCheck'', ''ocf''}
     \<and> calls st = Call_subscriptions ''app'' # map (call_of ''app'') example_order
     \<and> distinct (creates_of example_order)
     \<and> set (creates_of example_order) =
         desired_capabilities example_allowlist example_devices
           - capability ` set (subs example_remote)
     \<and> mset (deletes_of example_order) =
         mset (filter (\<lambda>s. capability s \<notin> desired_capabilities example_allowlist example_devices)
                 (subs example_remote))
     \<and> subs (cloud st) =
         filter (\<lambda>s. capability s \<in> desired_capabilities example_allowlist example_devices)
           (subs example_remote) @ new
     \<and> map capability new = creates_of example_order)"
  by (intro conjI example_remote_ok example_remote_distinct example_schedule example_pass
        sync_converges [OF example_remote_ok example_remote_distinct example_schedule])

text \<open>
  C3. Idempotence. If the remote state holds exactly one subscription for each desired
  capability and no other, and the listing call succeeds, then a pass issues the listing
  call and nothing else, reports that the subscriptions are up to date, and leaves the
  remote state as it is; this holds whatever the create and delete calls would have
  answered. Hence a second pass right after a successful first one, with the same devices,
  issues no create and no delete.
\<close>

theorem sync_idempotent:
  "(subscriptions_error env = None \<and> distinct (map capability (subs r)) \<and>
    capability ` set (subs r) = desired_capabilities K devices \<longrightarrow>
      smartapp_sync_subscriptions K env loc app devices order r =
        Inr \<lparr>calls = [Call_subscriptions app],
              logged = warning_log (desired_capabilities K devices) @ [Up_to_date],
              cloud = r\<rparr>)
   \<and> (remote_ok r \<and> is_schedule (sync_plan K devices (subs r)) order \<and>
      smartapp_sync_subscriptions K reliable loc app devices order r = Inr st \<and>
      subscriptions_error env = None \<longrightarrow>
      smartapp_sync_subscriptions K env loc app devices order' (cloud st) =
        Inr \<lparr>calls = [Call_subscriptions app],
              logged = warning_log (desired_capabilities K devices) @ [Up_to_date],
              cloud = cloud st\<rparr>)"
proof (intro conjI impI)
  assume a: "subscriptions_error env = None \<and> distinct (map capability (subs r)) \<and>
    capability ` set (subs r) = desired_capabilities K devices"
  show "smartapp_sync_subscriptions K env loc app devices order r =
        Inr \<lparr>calls = [Call_subscriptions app],
              logged = warning_log (desired_capabilities K devices) @ [Up_to_date],
              cloud = r\<rparr>"
    using a by (intro pass_up_to_date) simp_all
next
  assume b: "remote_ok r \<and> is_schedule (sync_plan K devices (subs r)) order \<and>
      smartapp_sync_subscriptions K reliable loc app devices order r = Inr st \<and>
      subscriptions_error env = None"
  have ok: "remote_ok r" and sch: "is_schedule (sync_plan K devices (subs r)) order"
    and res: "smartapp_sync_subscriptions K reliable loc app devices order r = Inr st"
    and e: "subscriptions_error env = None"
    using b by simp_all
  show "smartapp_sync_subscriptions K env loc app devices order' (cloud st) =
        Inr \<lparr>calls = [Call_subscriptions app],
              logged = warning_log (desired_capabilities K devices) @ [Up_to_date],
              cloud = cloud st\<rparr>"
    using e pass_converges [OF ok sch res] by (intro pass_up_to_date)
qed

theorem sync_idempotent_witness:
  "subscriptions_error example_flaky = None
   \<and> distinct (map capability (subs example_converged))
   \<and> capability ` set (subs example_converged) = desired_capabilities example_allowlist example_devices
   \<and> smartapp_sync_subscriptions example_allowlist example_flaky ''loc'' ''app'' example_devices
        example_order example_converged =
        Inr \<lparr>calls = [Call_subscriptions ''app''],
              logged = warning_log (desired_capabilities example_allowlist example_devices) @ [Up_to_date],
              cloud = example_converged\<rparr>
   \<and> remote_ok example_remote
   \<and> is_schedule (sync_plan example_allowlist example_devices (subs example_remote)) example_order
   \<and> smartapp_sync_subscriptions example_allowlist reliable ''loc'' ''app'' example_devices
        example_order example_remote = Inr example_after_pass
   \<and> smartapp_sync_subscriptions example_allowlist example_flaky ''loc'' ''app'' example_devices
        example_order (cloud example_after_pass) =
        Inr \<lparr>calls = [Call_subscriptions ''app''],
              logged = warning_log (desired_capabilities example_allowlist example_devices) @ [Up_to_date],
              cloud = cloud example_after_pass\<rparr>"
proof -
  have a: "subscriptions_error example_flaky = None
      \<and> distinct (map capability (subs example_converged))
      \<and> capability ` set (subs example_converged) = desired_capabilities example_allowlist example_devices"
    by (intro conjI example_flaky_lists example_converged_distinct example_converged_caps)
  have b: "remote_ok example_remote
      \<and> is_schedule (sync_plan example_allowlist example_devices (subs example_remote)) example_order
      \<and> smartapp_sync_subscriptions example_allowlist reliable ''loc'' ''app'' example_devices
           example_order example_remote = Inr example_after_pass
      \<and> subscriptions_error example_flaky = None"
    by (intro conjI example_remote_ok example_schedule example_pass example_flaky_lists)
  note first = sync_idempotent [where env = example_flaky and r = example_converged
      and K = example_allowlist and devices = example_devices and loc = "''loc''" and app = "''app''"
      and order = example_order, THEN conjunct1, THEN mp, OF a]
  note second = sync_idempotent [where env = example_flaky and r = example_remote
      and K = example_allowlist and devices = example_devices and loc = "''loc''" and app = "''app''"
      and order = example_order and st = example_after_pass and order' = example_order,
      THEN conjunct2, THEN mp, OF b]
  show ?thesis
    by (intro conjI example_flaky_lists example_converged_distinct example_converged_caps
          example_remote_ok example_schedule example_pass first second)
qed

text \<open>
  C4, as amended. When the listing call succeeds, an error raised by a create or a delete
  call is logged and goes no further: the pass returns without raising, every planned
  task issues its call, each task logs its own success or failure, and the remote state
  at the end is the one that the succeeding tasks alone produce, so a failing task holds
  back none of the others.
\<close>

theorem sync_absorbs_task_errors:
  assumes "subscriptions_error env = None"
    and "is_schedule (sync_plan K devices (subs r)) order"
  shows "\<exists>st st'. smartapp_sync_subscriptions K env loc app devices order r = Inr st
     \<and> calls st = Call_subscriptions app # map (call_of app) order
     \<and> logged st = warning_log (desired_capabilities K devices)
                    @ (if order = [] then [Up_to_date] else map (outcome env) order)
     \<and> gather reliable app loc (filter (succeeds env) order)
          \<lparr>calls = [], logged = [], cloud = r\<rparr> = Inr st'
     \<and> cloud st = cloud st'"
proof -
  let ?T = "desired_capabilities K devices"
  let ?st0 = "\<lparr>calls = [Call_subscriptions app], logged = warning_log ?T, cloud = r\<rparr>"
  let ?e = "\<lparr>calls = [], logged = [], cloud = r\<rparr>"
  obtain remaining deletions where fd: "find_differences (subs r) ?T [] = (remaining, deletions)"
    by (cases "find_differences (subs r) ?T []")
  have dels: "mset (deletes_of order) = mset deletions"
    and cre: "set (creates_of order) = remaining"
    using assms(2) by (simp_all add: is_schedule_def sync_plan_def fd)
  obtain st1 where st1: "gather env app loc order ?st0 = Inr st1"
      "calls st1 = calls ?st0 @ map (call_of app) order"
      "logged st1 = logged ?st0 @ map (outcome env) order"
    using gather_total [of env app loc order ?st0] by blast
  obtain st' where st': "gather reliable app loc (filter (succeeds env) order) ?e = Inr st'"
    using gather_total [of reliable app loc "filter (succeeds env) order" ?e] by blast
  have c: "cloud st1 = cloud st'"
    using gather_cloud_independent [OF _ st1(1) st'] by simp
  show ?thesis
  proof (cases "deletions \<noteq> [] \<or> remaining \<noteq> {}")
    case True
    then have ne: "order \<noteq> []" using dels cre by auto
    have "smartapp_sync_subscriptions K env loc app devices order r = Inr st1"
      using True st1(1) assms(1)
      by (simp add: smartapp_sync_subscriptions_def api_subscriptions_def fd Let_def)
    then show ?thesis using st1(2,3) st' c ne by simp
  next
    case False
    then have e: "order = []"
      using dels cre by (intro schedule_nil) auto
    then have "st' = ?e" using st' by simp
    moreover have "smartapp_sync_subscriptions K env loc app devices order r
        = Inr (?st0\<lparr>logged := logged ?st0 @ [Up_to_date]\<rparr>)"
      using False assms(1)
      by (simp add: smartapp_sync_subscriptions_def api_subscriptions_def fd Let_def)
    ultimately show ?thesis using e st' by simp
  qed
qed

theorem sync_absorbs_task_errors_witness:
  "subscriptions_error example_flaky = None
   \<and> is_schedule (sync_plan example_allowlist example_devices (subs example_remote)) example_order
   \<and> map (outcome example_flaky) example_order =
       [Created ''thermostatMode'', Removed ''battery'', Create_failed ''switchLevel'' APIResponseError]
   \<and> (\<exists>st st'. smartapp_sync_subscriptions example_allowlist example_flaky ''loc'' ''app''
          example_devices example_order example_remote = Inr st
     \<and> calls st = Call_subscriptions ''app'' # map (call_of ''app'') example_order
     \<and> logged st = warning_log (desired_capabilities example_allowlist example_devices)
                    @ (if example_order = [] then [Up_to_date]
                       else map (outcome example_flaky) example_order)
     \<and> gather reliable ''app'' ''loc'' (filter (succeeds example_flaky) example_order)
          \<lparr>calls = [], logged = [], cloud = example_remote\<rparr> = Inr st'
     \<and> cloud st = cloud st')"
proof -
  have o: "map (outcome example_flaky) example_order =
       [Created ''thermostatMode'', Removed ''battery'', Create_failed ''switchLevel'' APIResponseError]"
    by (simp add: scenario_defs never_fails_def)
  show ?thesis
    by (intro conjI example_flaky_lists example_schedule o
          sync_absorbs_task_errors [OF example_flaky_lists example_schedule])
qed

text \<open>
  C4 as first stated covers every remote call of the pass. The listing call is outside
  any handler: when it raises, the pass raises the same error to its caller.
\<close>

theorem sync_listing_error_escapes:
  "smartapp_sync_subscriptions example_allowlist example_unlisted ''loc'' ''app'' example_devices
     example_order example_remote = Inl APIResponseError"
  by (simp add: smartapp_sync_subscriptions_def api_subscriptions_def example_unlisted_def Let_def)

text \<open>
  C5, as amended. A well-formed token is submitted, and one of the helper calls of the
  credential step raises \<open>APIResponseError\<close> or \<open>ClientResponseError\<close>: the lookup of the
  app; the refresh or the update of an app that was found; the creation of an app when
  none was found; or the set-up of the SmartApp after either. In each case the step shows
  the credential form again with the error \<open>app_setup_error\<close> under the key \<open>base\<close>. The
  calls it has made end with the failing one, so the locations are not listed and the flow
  has not moved on to the location step; the session holds what was assigned before the
  failure.
\<close>

theorem pat_stays_on_response_errors:
  assumes "map_of user_input CONF_ACCESS_TOKEN = Some token"
    and "VAL_UID_MATCHER_match token"
    and "ex = APIResponseError \<or> ex = ClientResponseError"
  shows "((find_app_result env = Inl ex)
      \<longrightarrow> async_step_pat env (Some user_input) self =
          (Inr (Form ''pat'' Required_access_token (Some [(''base'', ''app_setup_error'')])),
           self\<lparr>access_token := Some token, api := Some token\<rparr>,
           [Call_find_app]))
   \<and> ((find_app_result env = Inr (Some app) \<and> refresh_result env = Inl ex)
      \<longrightarrow> async_step_pat env (Some user_input) self =
          (Inr (Form ''pat'' Required_access_token (Some [(''base'', ''app_setup_error'')])),
           self\<lparr>access_token := Some token, api := Some token\<rparr>,
           [Call_find_app, Call_refresh]))
   \<and> ((find_app_result env = Inr (Some app) \<and> refresh_result env = Inr ()
        \<and> update_app_result env = Inl ex)
      \<longrightarrow> async_step_pat env (Some user_input) self =
          (Inr (Form ''pat'' Required_access_token (Some [(''base'', ''app_setup_error'')])),
           self\<lparr>access_token := Some token, api := Some token\<rparr>,
           [Call_find_app, Call_refresh, Call_update_app]))
   \<and> ((find_app_result env = Inr (Some app) \<and> refresh_result env = Inr ()
        \<and> update_app_result env = Inr () \<and> setup_smartapp_result env = Inl ex)
      \<longrightarrow> async_step_pat env (Some user_input) self =
          (Inr (Form ''pat'' Required_access_token (Some [(''base'', ''app_setup_error'')])),
           self\<lparr>access_token := Some token, api := Some token,
                   app_id := Some (entity_app_id app)\<rparr>,
           [Call_find_app, Call_refresh, Call_update_app, Call_setup_smartapp]))
   \<and> ((find_app_result env = Inr None \<and> create_app_result env = Inl ex)
      \<longrightarrow> async_step_pat env (Some user_input) self =
          (Inr (Form ''pat'' Required_access_token (Some [(''base'', ''app_setup_error'')])),
           self\<lparr>access_token := Some token, api := Some token\<rparr>,
           [Call_find_app, Call_create_app]))
   \<and> ((find_app_result env = Inr None \<and> create_app_result env = Inr (created, client)
        \<and> setup_smartapp_result env = Inl ex)
      \<longrightarrow> async_step_pat env (Some user_input) self =
          (Inr (Form ''pat'' Required_access_token (Some [(''base'', ''app_setup_error'')])),
           self\<lparr>access_token := Some token, api := Some token,
                   oauth_client_id := Some (client_id client),
                   oauth_client_secret := Some (client_secret client),
                   app_id := Some (entity_app_id created)\<rparr>,
           [Call_find_app, Call_create_app, Call_setup_smartapp]))"
  using assms
  by (auto simp: async_step_pat_def Let_def show_step_pat_def pat_try_block_def)

theorem pat_stays_on_response_errors_witness:
  "map_of example_credentials CONF_ACCESS_TOKEN = Some example_token
   \<and> VAL_UID_MATCHER_match example_token
   \<and> (APIResponseError = APIResponseError \<or> APIResponseError = ClientResponseError)
   \<and> (ClientResponseError = APIResponseError \<or> ClientResponseError = ClientResponseError)
   \<and> find_app_result (example_env\<lparr>find_app_result := Inl APIResponseError\<rparr>) = Inl APIResponseError
   \<and> async_step_pat (example_env\<lparr>find_app_result := Inl APIResponseError\<rparr>) (Some example_credentials) init_flow_handler =
          (Inr (Form ''pat'' Required_access_token (Some [(''base'', ''app_setup_error'')])),
           init_flow_handler\<lparr>access_token := Some example_token, api := Some example_token\<rparr>,
           [Call_find_app])
   \<and> find_app_result example_refused = Inr (Some \<lparr>entity_app_id = ''app-1''\<rparr>)
   \<and> refresh_result example_refused = Inl ClientResponseError
   \<and> async_step_pat example_refused (Some example_credentials) init_flow_handler =
          (Inr (Form ''pat'' Required_access_token (Some [(''base'', ''app_setup_error'')])),
           init_flow_handler\<lparr>access_token := Some example_token, api := Some example_token\<rparr>,
           [Call_find_app, Call_refresh])
   \<and> find_app_result (example_env\<lparr>update_app_result := Inl APIResponseError\<rparr>) = Inr (Some \<lparr>entity_app_id = ''app-1''\<rparr>)
   \<and> refresh_result (example_env\<lparr>update_app_result := Inl APIResponseError\<rparr>) = Inr ()
   \<and> update_app_result (example_env\<lparr>update_app_result := Inl APIResponseError\<rparr>) = Inl APIResponseError
   \<and> async_step_pat (example_env\<lparr>update_app_result := Inl APIResponseError\<rparr>) (Some example_credentials) init_flow_handler =
          (Inr (Form ''pat'' Required_access_token (Some [(''base'', ''app_setup_error'')])),
           init_flow_handler\<lparr>access_token := Some example_token, api := Some example_token\<rparr>,
           [Call_find_app, Call_refresh, Call_update_app])
   \<and> find_app_result (example_env\<lparr>setup_smartapp_result := Inl ClientResponseError\<rparr>) = Inr (Some \<lparr>entity_app_id = ''app-1''\<rparr>)
   \<and> refresh_result (example_env\<lparr>setup_smartapp_result := Inl ClientResponseError\<rparr>) = Inr ()
   \<and> update_app_result (example_env\<lparr>setup_smartapp_result := Inl ClientResponseError\<rparr>) = Inr ()
   \<and> setup_smartapp_result (example_env\<lparr>setup_smartapp_result := Inl ClientResponseError\<rparr>) = Inl ClientResponseError
   \<and> async_step_pat (example_env\<lparr>setup_smartapp_result := Inl ClientResponseError\<rparr>) (Some example_credentials) init_flow_handler =
          (Inr (Form ''pat'' Required_access_token (Some [(''base'', ''app_setup_error'')])),
           init_flow_handler\<lparr>access_token := Some example_token, api := Some example_token,
                   app_id := Some (entity_app_id \<lparr>entity_app_id = ''app-1''\<rparr>)\<rparr>,
           [Call_find_app, Call_refresh, Call_update_app, Call_setup_smartapp])
   \<and> find_app_result (example_env\<lparr>find_app_result := Inr None, create_app_result := Inl APIResponseError\<rparr>) = Inr None
   \<and> create_app_result (example_env\<lparr>find_app_result := Inr None, create_app_result := Inl APIResponseError\<rparr>) = Inl APIResponseError
   \<and> async_step_pat (example_env\<lparr>find_app_result := Inr None, create_app_result := Inl APIResponseError\<rparr>) (Some example_credentials) init_flow_handler =
          (Inr (Form ''pat'' Required_access_token (Some [(''base'', ''app_setup_error'')])),
           init_flow_handler\<lparr>access_token := Some example_token, api := Some example_token\<rparr>,
           [Call_find_app, Call_create_app])
   \<and> find_app_result (example_env\<lparr>find_app_result := Inr None, setup_smartapp_result := Inl APIResponseError\<rparr>) = Inr None
   \<and> create_app_result (example_env\<lparr>find_app_result := Inr None, setup_smartapp_result := Inl APIResponseError\<rparr>) =
       Inr (\<lparr>entity_app_id = ''app-2''\<rparr>, \<lparr>client_id = ''cid'', client_secret = ''secret''\<rparr>)
   \<and> setup_smartapp_result (example_env\<lparr>find_app_result := Inr None, setup_smartapp_result := Inl APIResponseError\<rparr>) = Inl APIResponseError
   \<and> async_step_pat (example_env\<lparr>find_app_result := Inr None, setup_smartapp_result := Inl APIResponseError\<rparr>) (Some example_credentials) init_flow_handler =
          (Inr (Form ''pat'' Required_access_token (Some [(''base'', ''app_setup_error'')])),
           init_flow_handler\<lparr>access_token := Some example_token, api := Some example_token,
                   oauth_client_id := Some (client_id \<lparr>client_id = ''cid'', client_secret = ''secret''\<rparr>),
                   oauth_client_secret := Some (client_secret \<lparr>client_id = ''cid'', client_secret = ''secret''\<rparr>),
                   app_id := Some (entity_app_id \<lparr>entity_app_id = ''app-2''\<rparr>)\<rparr>,
           [Call_find_app, Call_create_app, Call_setup_smartapp])"
proof -
  have a: "APIResponseError = APIResponseError \<or> APIResponseError = ClientResponseError" by simp
  have c: "ClientResponseError = APIResponseError \<or> ClientResponseError = ClientResponseError" by simp
  have h1: "find_app_result (example_env\<lparr>find_app_result := Inl APIResponseError\<rparr>) = Inl APIResponseError"
    by (simp add: example_refused_def example_env_def)
  note t1 = pat_stays_on_response_errors [OF credentials_token example_token_matches a,
      where env = "example_env\<lparr>find_app_result := Inl APIResponseError\<rparr>" and self = init_flow_handler]
  note r1 = t1 [THEN conjunct1, THEN mp, OF h1]
  have h2: "find_app_result example_refused = Inr (Some \<lparr>entity_app_id = ''app-1''\<rparr>)
      \<and> refresh_result example_refused = Inl ClientResponseError"
    by (simp add: example_refused_def example_env_def)
  note t2 = pat_stays_on_response_errors [OF credentials_token example_token_matches c,
      where env = "example_refused" and self = init_flow_handler]
  note r2 = t2 [THEN conjunct2, THEN conjunct1, THEN mp, OF h2]
  have h3: "find_app_result (example_env\<lparr>update_app_result := Inl APIResponseError\<rparr>) = Inr (Some \<lparr>entity_app_id = ''app-1''\<rparr>)
      \<and> refresh_result (example_env\<lparr>update_app_result := Inl APIResponseError\<rparr>) = Inr ()
      \<and> update_app_result (example_env\<lparr>update_app_result := Inl APIResponseError\<rparr>) = Inl APIResponseError"
    by (simp add: example_refused_def example_env_def)
  note t3 = pat_stays_on_response_errors [OF credentials_token example_token_matches a,
      where env = "example_env\<lparr>update_app_result := Inl APIResponseError\<rparr>" and self = init_flow_handler]
  note r3 = t3 [THEN conjunct2, THEN conjunct2, THEN conjunct1, THEN mp, OF h3]
  have h4: "find_app_result (example_env\<lparr>setup_smartapp_result := Inl ClientResponseError\<rparr>) = Inr (Some \<lparr>entity_app_id = ''app-1''\<rparr>)
      \<and> refresh_result (example_env\<lparr>setup_smartapp_result := Inl ClientResponseError\<rparr>) = Inr ()
      \<and> update_app_result (example_env\<lparr>setup_smartapp_result := Inl ClientResponseError\<rparr>) = Inr ()
      \<and> setup_smartapp_result (example_env\<lparr>setup_smartapp_result := Inl ClientResponseError\<rparr>) = Inl ClientResponseError"
    by (simp add: example_refused_def example_env_def)
  note t4 = pat_stays_on_response_errors [OF credentials_token example_token_matches c,
      where env = "example_env\<lparr>setup_smartapp_result := Inl ClientResponseError\<rparr>" and self = init_flow_handler]
  note r4 = t4 [THEN conjunct2, THEN conjunct2, THEN conjunct2, THEN conjunct1, THEN mp, OF h4]
  have h5: "find_app_result (example_env\<lparr>find_app_result := Inr None, create_app_result := Inl APIResponseError\<rparr>) = Inr None
      \<and> create_app_result (example_env\<lparr>find_app_result := Inr None, create_app_result := Inl APIResponseError\<rparr>) = Inl APIResponseError"
    by (simp add: example_refused_def example_env_def)
  note t5 = pat_stays_on_response_errors [OF credentials_token example_token_matches a,
      where env = "example_env\<lparr>find_app_result := Inr None, create_app_result := Inl APIResponseError\<rparr>" and self = init_flow_handler]
  note r5 = t5 [THEN conjunct2, THEN conjunct2, THEN conjunct2, THEN conjunct2, THEN conjunct1, THEN mp, OF h5]
  have h6: "find_app_result (example_env\<lparr>find_app_result := Inr None, setup_smartapp_result := Inl APIResponseError\<rparr>) = Inr None
      \<and> create_app_result (example_env\<lparr>find_app_result := Inr None, setup_smartapp_result := Inl APIResponseError\<rparr>) =
       Inr (\<lparr>entity_app_id = ''app-2''\<rparr>, \<lparr>client_id = ''cid'', client_secret = ''secret''\<rparr>)
      \<and> setup_smartapp_result (example_env\<lparr>find_app_result := Inr None, setup_smartapp_result := Inl APIResponseError\<rparr>) = Inl APIResponseError"
    by (simp add: example_refused_def example_env_def)
  note t6 = pat_stays_on_response_errors [OF credentials_token example_token_matches a,
      where env = "example_env\<lparr>find_app_result := Inr None, setup_smartapp_result := Inl APIResponseError\<rparr>" and self = init_flow_handler]
  note r6 = t6 [THEN conjunct2, THEN conjunct2, THEN conjunct2, THEN conjunct2, THEN conjunct2, THEN mp, OF h6]
  show ?thesis
    by (intro conjI credentials_token
          example_token_matches
          a
          c
          h1
          r1
          h2 [THEN conjunct1]
          h2 [THEN conjunct2]
          r2
          h3 [THEN conjunct1]
          h3 [THEN conjunct2, THEN conjunct1]
          h3 [THEN conjunct2, THEN conjunct2]
          r3
          h4 [THEN conjunct1]
          h4 [THEN conjunct2, THEN conjunct1]
          h4 [THEN conjunct2, THEN conjunct2, THEN conjunct1]
          h4 [THEN conjunct2, THEN conjunct2, THEN conjunct2]
          r4
          h5 [THEN conjunct1]
          h5 [THEN conjunct2]
          r5
          h6 [THEN conjunct1]
          h6 [THEN conjunct2, THEN conjunct1]
          h6 [THEN conjunct2, THEN conjunct2]
          r6)
qed

text \<open>
  C5 as first stated speaks of every error of the API or the transport. The handler names
  two exception classes only; a dropped connection during the lookup of the app is
  neither, and it leaves the step as an exception instead of a form.
\<close>

theorem pat_connection_error_escapes:
  "async_step_pat example_offline (Some example_credentials) init_flow_handler =
     (Inl ClientConnectionError,
      init_flow_handler\<lparr>access_token := Some example_token, api := Some example_token\<rparr>,
      [Call_find_app])"
  by (simp add: async_step_pat_def credentials_token example_token_matches Let_def
        pat_try_block_def example_offline_def example_env_def)

text \<open>
  C6, as amended. The location step looks at the submitted input only. Invoked without a
  submitted location (no input, or an input without the key \<open>location_id\<close>) in a session
  that has a client, it lists the locations once, whatever the session has stored, and
  leaves the session unchanged. Invoked with a submitted location, it stores it and
  hands over to the authorize step without any call.
\<close>

theorem select_location_follows_submitted_input:
  "((case user_input of None \<Rightarrow> None | Some submitted \<Rightarrow> map_of submitted CONF_LOCATION_ID) = None
      \<and> api self = Some token
      \<longrightarrow> (\<exists>result. async_step_select_location env user_input self = (result, self, [Call_locations])))
   \<and> (map_of submitted CONF_LOCATION_ID = Some selected
      \<longrightarrow> async_step_select_location env (Some submitted) self =
            async_step_authorize None (self\<lparr>location_id := Some selected\<rparr>)
          \<and> snd (snd (async_step_select_location env (Some submitted) self)) = [])"
proof (rule conjI)
  show "(case user_input of None \<Rightarrow> None | Some submitted \<Rightarrow> map_of submitted CONF_LOCATION_ID) = None
      \<and> api self = Some token
      \<longrightarrow> (\<exists>result. async_step_select_location env user_input self = (result, self, [Call_locations]))"
    by (auto simp: async_step_select_location_def split: sum.splits)
next
  show "map_of submitted CONF_LOCATION_ID = Some selected
      \<longrightarrow> async_step_select_location env (Some submitted) self =
            async_step_authorize None (self\<lparr>location_id := Some selected\<rparr>)
          \<and> snd (snd (async_step_select_location env (Some submitted) self)) = []"
    by (auto simp: async_step_select_location_def async_step_authorize_def authorize_prompt_def
          split: option.splits)
qed

theorem select_location_follows_submitted_input_witness:
  "(case (None :: string dict option) of None \<Rightarrow> None
      | Some submitted \<Rightarrow> map_of submitted CONF_LOCATION_ID) = None
   \<and> api example_session = Some example_token
   \<and> (\<exists>result. async_step_select_location example_env None example_session =
                  (result, example_session, [Call_locations]))
   \<and> map_of [(CONF_LOCATION_ID, ''loc-1'')] CONF_LOCATION_ID = Some ''loc-1''
   \<and> async_step_select_location example_env (Some [(CONF_LOCATION_ID, ''loc-1'')])
        (example_session\<lparr>location_id := None\<rparr>) =
       async_step_authorize None (example_session\<lparr>location_id := None, location_id := Some ''loc-1''\<rparr>)
   \<and> snd (snd (async_step_select_location example_env (Some [(CONF_LOCATION_ID, ''loc-1'')])
                  (example_session\<lparr>location_id := None\<rparr>))) = []"
proof -
  have a: "(case (None :: string dict option) of None \<Rightarrow> None
      | Some submitted \<Rightarrow> map_of submitted CONF_LOCATION_ID) = None
      \<and> api example_session = Some example_token"
    by (simp add: example_session_def)
  have b: "map_of [(CONF_LOCATION_ID, ''loc-1'')] CONF_LOCATION_ID = Some ''loc-1''"
    by simp
  note first = select_location_follows_submitted_input
      [where user_input = None and self = example_session and token = example_token
         and env = example_env, THEN conjunct1, THEN mp, OF a]
  note second = select_location_follows_submitted_input
      [where submitted = "[(CONF_LOCATION_ID, ''loc-1'')]" and selected = "''loc-1''"
         and self = "example_session\<lparr>location_id := None\<rparr>" and env = example_env,
       THEN conjunct2, THEN mp, OF b]
  show ?thesis
    by (intro conjI a [THEN conjunct1] a [THEN conjunct2] first b
          second [THEN conjunct1] second [THEN conjunct2])
qed

text \<open>
  C6 as first stated lets a stored selection skip the listing. In a session that already
  holds a location, the step invoked without input lists the locations and shows the
  selection form.
\<close>

theorem select_location_lists_despite_stored_selection:
  "location_id example_session = Some ''loc-1''
   \<and> async_step_select_location example_env None example_session =
       (Inr (Form ''select_location'' (Required_location_id [(''loc-1'', ''Home'')]) None),
        example_session, [Call_locations])"
  by (simp add: async_step_select_location_def locations_options_of_def example_env_def
        example_session_def init_flow_handler_def)

text \<open>
  C7. The claim is that a token which is neither 32 hexadecimal digits nor the
  hyphenated form is turned away without any call. The comment in the step says the
  token is to be a UUID, but \<open>VAL_UID\<close> ends in \<open>$\<close> and is applied with \<open>match\<close>, and in
  Python \<open>$\<close> also matches just before a line feed that ends the string. A well-formed
  token followed by a line feed has neither of the two forms, yet the pattern matches
  it: the step builds the client with it, calls the helpers and goes on to list the
  locations.
\<close>

theorem pat_accepts_token_with_line_feed:
  "\<not> hex_groups [32] example_token_line_feed
   \<and> \<not> hex_groups [8, 4, 4, 4, 12] example_token_line_feed
   \<and> VAL_UID_MATCHER_match example_token_line_feed
   \<and> async_step_pat example_env (Some [(CONF_ACCESS_TOKEN, example_token_line_feed)])
        init_flow_handler =
       (Inr (Form ''select_location'' (Required_location_id [(''loc-1'', ''Home'')]) None),
        init_flow_handler\<lparr>access_token := Some example_token_line_feed,
                          api := Some example_token_line_feed, app_id := Some ''app-1''\<rparr>,
        [Call_find_app, Call_refresh, Call_update_app, Call_setup_smartapp, Call_locations])"
proof -
  have n1: "\<not> hex_groups [32] example_token_line_feed"
    by (simp add: example_token_line_feed_def example_token_def)
  have n2: "\<not> hex_groups [8, 4, 4, 4, 12] example_token_line_feed"
    by (simp add: example_token_line_feed_def example_token_def hex_digit_def)
  have m: "VAL_UID_MATCHER_match example_token_line_feed"
    by (simp add: VAL_UID_MATCHER_match_def VAL_UID_alternatives_def hex_digit_def
          example_token_line_feed_def example_token_def)
  have p: "async_step_pat example_env (Some [(CONF_ACCESS_TOKEN, example_token_line_feed)])
        init_flow_handler =
       (Inr (Form ''select_location'' (Required_location_id [(''loc-1'', ''Home'')]) None),
        init_flow_handler\<lparr>access_token := Some example_token_line_feed,
                          api := Some example_token_line_feed, app_id := Some ''app-1''\<rparr>,
        [Call_find_app, Call_refresh, Call_update_app, Call_setup_smartapp, Call_locations])"
    by (simp add: async_step_pat_def m Let_def pat_try_block_def async_step_select_location_def
          locations_options_of_def example_env_def init_flow_handler_def)
  show ?thesis
    by (intro conjI n1 n2 m p)
qed

text \<open>
  C8. When the listing of locations answers with an empty collection, the step that
  listed them aborts with the reason \<open>no_available_locations\<close>: the location step itself,
  which then has made that one call and left the session as it was, and likewise the
  credential step when it runs on into the location step. The result is the abort, so
  neither the authorize prompt nor an entry is produced.
\<close>

theorem select_location_aborts_on_empty_listing:
  "(locations_result env = Inr []
      \<and> Call_locations \<in> set (snd (snd (async_step_select_location env user_input self)))
     \<longrightarrow> async_step_select_location env user_input self =
           (Inr (Abort ''no_available_locations''), self, [Call_locations]))
   \<and> (locations_result env = Inr []
      \<and> Call_locations \<in> set (snd (snd (async_step_pat env user_input self)))
     \<longrightarrow> fst (async_step_pat env user_input self) = Inr (Abort ''no_available_locations''))"
proof (rule conjI)
  obtain result self' cs where e: "async_step_select_location env user_input self = (result, self', cs)"
    by (cases "async_step_select_location env user_input self")
  show "locations_result env = Inr []
      \<and> Call_locations \<in> set (snd (snd (async_step_select_location env user_input self)))
     \<longrightarrow> async_step_select_location env user_input self =
           (Inr (Abort ''no_available_locations''), self, [Call_locations])"
    using select_location_empty_listing [OF _ e] by (simp add: e)
next
  obtain result self' cs where e: "async_step_pat env user_input self = (result, self', cs)"
    by (cases "async_step_pat env user_input self")
  show "locations_result env = Inr []
      \<and> Call_locations \<in> set (snd (snd (async_step_pat env user_input self)))
     \<longrightarrow> fst (async_step_pat env user_input self) = Inr (Abort ''no_available_locations'')"
    using pat_empty_listing [OF _ e] by (simp add: e)
qed

theorem select_location_aborts_on_empty_listing_witness:
  "locations_result example_no_locations = Inr []
   \<and> Call_locations
       \<in> set (snd (snd (async_step_select_location example_no_locations None example_session)))
   \<and> async_step_select_location example_no_locations None example_session =
       (Inr (Abort ''no_available_locations''), example_session, [Call_locations])
   \<and> Call_locations
       \<in> set (snd (snd (async_step_pat example_no_locations (Some example_credentials)
                           init_flow_handler)))
   \<and> fst (async_step_pat example_no_locations (Some example_credentials) init_flow_handler) =
       Inr (Abort ''no_available_locations'')"
proof -
  have a: "locations_result example_no_locations = Inr []
     \<and> Call_locations
       \<in> set (snd (snd (async_step_select_location example_no_locations None example_session)))"
    by (simp add: no_locations_listing no_locations_select)
  have b: "locations_result example_no_locations = Inr []
     \<and> Call_locations
       \<in> set (snd (snd (async_step_pat example_no_locations (Some example_credentials)
                           init_flow_handler)))"
    by (simp add: no_locations_listing no_locations_pat)
  note first = select_location_aborts_on_empty_listing [THEN conjunct1, THEN mp, OF a]
  note second = select_location_aborts_on_empty_listing [THEN conjunct2, THEN mp, OF b]
  show ?thesis
    by (intro conjI a [THEN conjunct1] a [THEN conjunct2] b [THEN conjunct2] first second)
qed

text \<open>
  C9. Duplicates. In the plan, a subscription whose capability is desired gets a delete
  task exactly when a subscription listed before it has the same capability. In a pass on
  which all calls succeed, under every order in which its tasks complete, this is what
  happens to each listed subscription with a desired capability: when it is the first of
  its capability in listing order, no delete call is issued for it and it is still there
  afterwards; when an earlier one has the same capability, the delete call for it is
  issued and it is gone afterwards. So after the pass no capability has two
  subscriptions, even when the listing had duplicates.
\<close>

theorem sync_removes_duplicates:
  "(capability s \<in> desired_capabilities K devices \<longrightarrow>
      snd (sync_plan K devices (xs @ s # ys)) =
        snd (sync_plan K devices xs)
        @ (if capability s \<in> capability ` set xs then [s] else [])
        @ snd (find_differences ys
                 (desired_capabilities K devices - capability ` set (xs @ [s])) []))
   \<and> (remote_ok r \<and> is_schedule (sync_plan K devices (subs r)) order \<longrightarrow>
        (\<exists>st. smartapp_sync_subscriptions K reliable loc app devices order r = Inr st
           \<and> distinct (map capability (subs (cloud st)))
           \<and> calls st = Call_subscriptions app # map (call_of app) order
           \<and> (\<forall>before d after.
                 subs r = before @ d # after
                 \<and> capability d \<in> desired_capabilities K devices \<longrightarrow>
                   (Call_delete_subscription app (subscription_id d) \<in> set (calls st))
                     = (capability d \<in> capability ` set before)
                 \<and> (d \<in> set (subs (cloud st)))
                     = (capability d \<notin> capability ` set before))))"
proof (rule conjI)
  show "capability s \<in> desired_capabilities K devices \<longrightarrow>
      snd (sync_plan K devices (xs @ s # ys)) =
        snd (sync_plan K devices xs)
        @ (if capability s \<in> capability ` set xs then [s] else [])
        @ snd (find_differences ys
                 (desired_capabilities K devices - capability ` set (xs @ [s])) [])"
    using plan_at_duplicate by (rule impI)
next
  show "remote_ok r \<and> is_schedule (sync_plan K devices (subs r)) order \<longrightarrow>
        (\<exists>st. smartapp_sync_subscriptions K reliable loc app devices order r = Inr st
           \<and> distinct (map capability (subs (cloud st)))
           \<and> calls st = Call_subscriptions app # map (call_of app) order
           \<and> (\<forall>before d after.
                 subs r = before @ d # after
                 \<and> capability d \<in> desired_capabilities K devices \<longrightarrow>
                   (Call_delete_subscription app (subscription_id d) \<in> set (calls st))
                     = (capability d \<in> capability ` set before)
                 \<and> (d \<in> set (subs (cloud st)))
                     = (capability d \<notin> capability ` set before)))"
  proof (rule impI)
    assume a: "remote_ok r \<and> is_schedule (sync_plan K devices (subs r)) order"
    then have ok: "remote_ok r" and sch: "is_schedule (sync_plan K devices (subs r)) order"
      by simp_all
    obtain st where st: "smartapp_sync_subscriptions K reliable loc app devices order r = Inr st"
        and cs: "calls st = Call_subscriptions app # map (call_of app) order"
      using pass_reliable [OF ok sch, of loc app] by blast
    have dis: "distinct (map capability (subs (cloud st)))"
      using pass_converges(1) [OF ok sch st] .
    have each: "\<forall>before d after.
                 subs r = before @ d # after
                 \<and> capability d \<in> desired_capabilities K devices \<longrightarrow>
                   (Call_delete_subscription app (subscription_id d) \<in> set (calls st))
                     = (capability d \<in> capability ` set before)
                 \<and> (d \<in> set (subs (cloud st)))
                     = (capability d \<notin> capability ` set before)"
    proof (intro allI impI)
      fix before d after
      assume h: "subs r = before @ d # after
                 \<and> capability d \<in> desired_capabilities K devices"
      then have h1: "subs r = before @ d # after"
        and h2: "capability d \<in> desired_capabilities K devices"
        by simp_all
      show "(Call_delete_subscription app (subscription_id d) \<in> set (calls st))
                     = (capability d \<in> capability ` set before)
                 \<and> (d \<in> set (subs (cloud st)))
                     = (capability d \<notin> capability ` set before)"
        using pass_duplicates [OF ok sch st h1 h2] by (rule conjI)
    qed
    show "\<exists>st. smartapp_sync_subscriptions K reliable loc app devices order r = Inr st
           \<and> distinct (map capability (subs (cloud st)))
           \<and> calls st = Call_subscriptions app # map (call_of app) order
           \<and> (\<forall>before d after.
                 subs r = before @ d # after
                 \<and> capability d \<in> desired_capabilities K devices \<longrightarrow>
                   (Call_delete_subscription app (subscription_id d) \<in> set (calls st))
                     = (capability d \<in> capability ` set before)
                 \<and> (d \<in> set (subs (cloud st)))
                     = (capability d \<notin> capability ` set before))"
      using st dis cs each by (intro exI [of _ st] conjI)
  qed
qed

theorem sync_removes_duplicates_witness:
  "capability (example_subscription 1 ''switch'') \<in> desired_capabilities example_allowlist example_devices
   \<and> snd (sync_plan example_allowlist example_devices
            ([example_subscription 0 ''switch''] @ example_subscription 1 ''switch''
               # [example_subscription 2 ''switch''])) =
        snd (sync_plan example_allowlist example_devices [example_subscription 0 ''switch''])
        @ (if capability (example_subscription 1 ''switch'')
                \<in> capability ` set [example_subscription 0 ''switch'']
           then [example_subscription 1 ''switch''] else [])
        @ snd (find_differences [example_subscription 2 ''switch'']
                 (desired_capabilities example_allowlist example_devices
                    - capability ` set ([example_subscription 0 ''switch'']
                                          @ [example_subscription 1 ''switch''])) [])
   \<and> snd (sync_plan example_allowlist example_devices (subs example_duplicated)) =
        [example_subscription 1 ''switch'', example_subscription 2 ''switch'']
   \<and> remote_ok example_duplicated
   \<and> is_schedule (sync_plan example_allowlist example_devices (subs example_duplicated))
        example_duplicated_order
   \<and> smartapp_sync_subscriptions example_allowlist reliable ''loc'' ''app'' example_devices
        example_duplicated_order example_duplicated = Inr example_deduplicated
   \<and> (\<exists>st. smartapp_sync_subscriptions example_allowlist reliable ''loc'' ''app'' example_devices
               example_duplicated_order example_duplicated = Inr st
           \<and> distinct (map capability (subs (cloud st)))
           \<and> calls st = Call_subscriptions ''app'' # map (call_of ''app'') example_duplicated_order
           \<and> (\<forall>before d after.
                 subs example_duplicated = before @ d # after
                 \<and> capability d \<in> desired_capabilities example_allowlist example_devices \<longrightarrow>
                   (Call_delete_subscription ''app'' (subscription_id d) \<in> set (calls st))
                     = (capability d \<in> capability ` set before)
                 \<and> (d \<in> set (subs (cloud st)))
                     = (capability d \<notin> capability ` set before)))"
proof -
  have b: "remote_ok example_duplicated
      \<and> is_schedule (sync_plan example_allowlist example_devices (subs example_duplicated))
           example_duplicated_order"
    by (intro conjI example_duplicated_ok example_duplicated_schedule)
  have p: "snd (sync_plan example_allowlist example_devices (subs example_duplicated)) =
        [example_subscription 1 ''switch'', example_subscription 2 ''switch'']"
    by (simp add: example_duplicated_plan)
  note first = sync_removes_duplicates [where s = "example_subscription 1 ''switch''"
      and K = example_allowlist and devices = example_devices
      and xs = "[example_subscription 0 ''switch'']" and ys = "[example_subscription 2 ''switch'']",
      THEN conjunct1, THEN mp, OF example_duplicate_wanted]
  note second = sync_removes_duplicates [where K = example_allowlist and devices = example_devices
      and r = example_duplicated and order = example_duplicated_order and loc = "''loc''"
      and app = "''app''", THEN conjunct2, THEN mp, OF b]
  show ?thesis
    by (intro conjI example_duplicate_wanted first p example_duplicated_ok
          example_duplicated_schedule example_duplicated_pass second)
qed

text \<open>
  C10, as amended. Take a new session in which the credential step found the app
  registered already and went on to show the location form, and in which a location was
  then submitted. For every authorization payload with at least one key the authorize
  step creates the entry without checking any field: the client identifier and the client
  secret are \<open>None\<close>, and the installed app identifier and the refresh token are what the
  payload holds under their keys, \<open>None\<close> for a key it lacks.
\<close>

theorem authorize_creates_entry_unvalidated:
  assumes "map_of credentials CONF_ACCESS_TOKEN = Some token"
    and "find_app_result env = Inr (Some app)"
    and "async_step_pat env (Some credentials) init_flow_handler =
           (Inr (Form ''select_location'' options None), self1, cs1)"
    and "map_of submitted CONF_LOCATION_ID = Some selected"
    and "async_step_select_location env (Some submitted) self1 = (result2, self2, cs2)"
    and "payload \<noteq> []"
  shows "\<exists>data self3.
           async_step_authorize (Some payload) self2 =
             (Inr (Create_entry ''SmartThings'' data), self3, [])
         \<and> map_of data CONF_CLIENT_ID = Some None
         \<and> map_of data CONF_CLIENT_SECRET = Some None
         \<and> map_of data CONF_INSTALLED_APP_ID = Some (map_of payload CONF_INSTALLED_APP_ID)
         \<and> map_of data CONF_REFRESH_TOKEN = Some (map_of payload CONF_REFRESH_TOKEN)
         \<and> map_of data CONF_ACCESS_TOKEN = Some (Some token)
         \<and> map_of data CONF_LOCATION_ID = Some (Some selected)
         \<and> map_of data CONF_APP_ID = Some (Some (entity_app_id app))"
proof -
  let ?h1 = "init_flow_handler\<lparr>access_token := Some token, api := Some token,
                               app_id := Some (entity_app_id app)\<rparr>"
  have h1: "self1 = ?h1"
    using pat_found_handler [OF assms(1,2,3)] .
  have "async_step_select_location env (Some submitted) ?h1 =
          (Inr (External_step ''authorize'' (Install_url (entity_app_id app) selected)),
           ?h1\<lparr>location_id := Some selected\<rparr>, [])"
    by (rule select_location_submitted [OF assms(4)]) simp
  then have h2: "self2 = ?h1\<lparr>location_id := Some selected\<rparr>"
    using assms(5) h1 by simp
  have e: "async_step_authorize (Some payload) self2 =
           (Inr (Create_entry ''SmartThings''
                  [(CONF_ACCESS_TOKEN, access_token self2),
                   (CONF_REFRESH_TOKEN, map_of payload CONF_REFRESH_TOKEN),
                   (CONF_CLIENT_ID, oauth_client_id self2),
                   (CONF_CLIENT_SECRET, oauth_client_secret self2),
                   (CONF_LOCATION_ID, Some selected),
                   (CONF_APP_ID, Some (entity_app_id app)),
                   (CONF_INSTALLED_APP_ID, map_of payload CONF_INSTALLED_APP_ID)]),
            self2\<lparr>installed_app_id := map_of payload CONF_INSTALLED_APP_ID,
                   refresh_token := map_of payload CONF_REFRESH_TOKEN\<rparr>, [])"
    by (rule authorize_payload [OF assms(6)]) (simp_all add: h2)
  have f: "access_token self2 = Some token" "oauth_client_id self2 = None"
      "oauth_client_secret self2 = None"
    by (simp_all add: h2 init_flow_handler_def)
  show ?thesis
    unfolding e f by (simp add: conf_defs)
qed

theorem authorize_creates_entry_unvalidated_witness:
  "map_of example_credentials CONF_ACCESS_TOKEN = Some example_token
   \<and> find_app_result example_env = Inr (Some \<lparr>entity_app_id = ''app-1''\<rparr>)
   \<and> async_step_pat example_env (Some example_credentials) init_flow_handler =
       (Inr (Form ''select_location'' (Required_location_id [(''loc-1'', ''Home'')]) None),
        init_flow_handler\<lparr>access_token := Some example_token, api := Some example_token,
                          app_id := Some ''app-1''\<rparr>,
        [Call_find_app, Call_refresh, Call_update_app, Call_setup_smartapp, Call_locations])
   \<and> map_of [(CONF_LOCATION_ID, ''loc-1'')] CONF_LOCATION_ID = Some ''loc-1''
   \<and> async_step_select_location example_env (Some [(CONF_LOCATION_ID, ''loc-1'')])
       (init_flow_handler\<lparr>access_token := Some example_token, api := Some example_token,
                          app_id := Some ''app-1''\<rparr>) =
       (Inr (External_step ''authorize'' (Install_url ''app-1'' ''loc-1'')), example_session, [])
   \<and> [(CONF_INSTALLED_APP_ID, ''installed-1'')] \<noteq> []
   \<and> (\<exists>data self3.
           async_step_authorize (Some [(CONF_INSTALLED_APP_ID, ''installed-1'')]) example_session =
             (Inr (Create_entry ''SmartThings'' data), self3, [])
         \<and> map_of data CONF_CLIENT_ID = Some None
         \<and> map_of data CONF_CLIENT_SECRET = Some None
         \<and> map_of data CONF_INSTALLED_APP_ID =
             Some (map_of [(CONF_INSTALLED_APP_ID, ''installed-1'')] CONF_INSTALLED_APP_ID)
         \<and> map_of data CONF_REFRESH_TOKEN =
             Some (map_of [(CONF_INSTALLED_APP_ID, ''installed-1'')] CONF_REFRESH_TOKEN)
         \<and> map_of data CONF_ACCESS_TOKEN = Some (Some example_token)
         \<and> map_of data CONF_LOCATION_ID = Some (Some ''loc-1'')
         \<and> map_of data CONF_APP_ID = Some (Some (entity_app_id \<lparr>entity_app_id = ''app-1''\<rparr>)))
   \<and> map_of [(CONF_INSTALLED_APP_ID, ''installed-1'')] CONF_REFRESH_TOKEN = None"
proof -
  have s: "map_of [(CONF_LOCATION_ID, ''loc-1'')] CONF_LOCATION_ID = Some ''loc-1''"
    by simp
  have p: "[(CONF_INSTALLED_APP_ID, ''installed-1'')] \<noteq> []"
    by simp
  have o: "map_of [(CONF_INSTALLED_APP_ID, ''installed-1'')] CONF_REFRESH_TOKEN = None"
    by (simp add: conf_defs)
  show ?thesis
    by (intro conjI credentials_token example_found example_pat s example_select p o
          authorize_creates_entry_unvalidated
            [OF credentials_token example_found example_pat s example_select p])
qed

text \<open>
  C10 as first stated creates the entry for every payload that lacks the two keys. The
  step tests the payload for truth, and a payload without any key is false: the step
  then answers with the authorization prompt and creates nothing.
\<close>

theorem authorize_prompts_on_empty_payload:
  "async_step_authorize (Some []) example_session =
     (Inr (External_step ''authorize'' (Install_url ''app-1'' ''loc-1'')), example_session, [])"
  by (simp add: async_step_authorize_def authorize_prompt_def example_session_def
        init_flow_handler_def)

end
